theory Spec2Isabelle
  imports Complex_Main "HOL-Library.Multiset"
begin

section \<open>Numbers and shared geometric records\<close>

text \<open>
  The TypeScript sources compute on JavaScript numbers, which are IEEE 754 doubles.
  Where the outcome of a comparison depends on how results are rounded, the embedding
  carries the rounding as a parameter \<open>rnd\<close>, applied to the result of every arithmetic
  operation and to every decimal literal that is not itself a double:
  \<open>rnd = (\<lambda>v. v)\<close> is exact arithmetic and \<open>rnd = round_double\<close> is binary64 with
  round-to-nearest, ties-to-even. This is so for the stop test of the gradient step,
  for the tolerance test of the eigen-alignment check and for the grid loops of the
  Riemann sum. \<open>Math.sqrt\<close> and \<open>** 2\<close> are taken correctly rounded (the rounded real
  square root and the rounded product), \<open>Math.abs\<close> is exact. Everywhere else the
  numbers are exact reals, with \<open>Math.sin\<close>, \<open>Math.cos\<close>, \<open>Math.max\<close> and \<open>Math.min\<close>
  the real functions \<^const>\<open>sin\<close>, \<^const>\<open>cos\<close>, \<^const>\<open>max\<close> and \<^const>\<open>min\<close>;
  the text fields carry NaN and the infinities. Record fields carry a short prefix
  because the source's field names \<open>x\<close>, \<open>y\<close>, \<open>z\<close>, \<open>f\<close>, \<open>range\<close> would capture
  variables.
\<close>

text \<open>\<open>interface Point { x: number; y: number; z: number; }\<close>\<close>

record Point =
  px :: real
  py :: real
  pz :: real

text \<open>The anonymous \<open>{ x: number, y: number }\<close> objects (position, camera, pan, mouse).\<close>

record XY =
  xy_x :: real
  xy_y :: real

text \<open>The nearest integer, a tie going to the even neighbour.\<close>

definition round_half_even :: "real \<Rightarrow> int" where
  "round_half_even v =
     (let fl = \<lfloor>v\<rfloor>; frac = v - of_int fl
      in if frac < 1 / 2 then fl
         else if frac > 1 / 2 then fl + 1
         else if even fl then fl else fl + 1)"

text \<open>
  The nearest double of a real number in the normal range: with \<open>2\<^sup>k \<le> |v| < 2\<^sup>k\<^sup>+\<^sup>1\<close> the
  doubles around \<open>v\<close> are the multiples of \<open>2\<^sup>k\<^sup>-\<^sup>5\<^sup>2\<close> (53 significant bits). Overflow
  to infinity and subnormal numbers are not modelled; no value computed below comes
  near them.
\<close>

definition round_double :: "real \<Rightarrow> real" where
  "round_double v =
     (if v = 0 then 0
      else (let e = \<lfloor>log 2 \<bar>v\<bar>\<rfloor> - 52
            in of_int (round_half_even (v / 2 powr of_int e)) * 2 powr of_int e))"

section \<open>Gradient descent (GradientDescent.tsx)\<close>

text \<open>One entry of the \<open>FUNCTIONS\<close> table.\<close>

record ScalarField =
  fn_f :: "real \<Rightarrow> real \<Rightarrow> real"
  fn_df_dx :: "real \<Rightarrow> real \<Rightarrow> real"
  fn_df_dy :: "real \<Rightarrow> real \<Rightarrow> real"
  fn_start :: XY
  fn_range :: real

definition bowl :: ScalarField where
  "bowl = \<lparr> fn_f = (\<lambda>x y. (x * x + y * y) / 4),
            fn_df_dx = (\<lambda>x y. x / 2),
            fn_df_dy = (\<lambda>x y. y / 2),
            fn_start = \<lparr> xy_x = 3, xy_y = 3 \<rparr>,
            fn_range = 4 \<rparr>"

definition waves :: ScalarField where
  "waves = \<lparr> fn_f = (\<lambda>x y. cos x + cos y + (x * x + y * y) / 10),
             fn_df_dx = (\<lambda>x y. - sin x + x / 5),
             fn_df_dy = (\<lambda>x y. - sin y + y / 5),
             fn_start = \<lparr> xy_x = 2.5, xy_y = 2.5 \<rparr>,
             fn_range = 4 \<rparr>"

definition saddle :: ScalarField where
  "saddle = \<lparr> fn_f = (\<lambda>x y. (x * x - y * y) / 4),
              fn_df_dx = (\<lambda>x y. x / 2),
              fn_df_dy = (\<lambda>x y. - y / 2),
              fn_start = \<lparr> xy_x = 0.1, xy_y = 3 \<rparr>,
              fn_range = 4 \<rparr>"

definition FUNCTIONS :: "ScalarField list" where
  "FUNCTIONS = [bowl, waves, saddle]"

datatype DragMode = ORBIT | BALL

text \<open>
  The component's \<open>useState\<close> and \<open>useRef\<close> cells, as one record. \<open>dragging\<close> is
  \<open>'ORBIT' | 'BALL' | null\<close>, so an option.
\<close>

record GDState =
  gd_funcIndex :: nat
  gd_learningRate :: real
  gd_isRunning :: bool
  gd_position :: XY
  gd_path :: "Point list"
  gd_iteration :: nat
  gd_camera :: XY
  gd_scale :: real
  gd_pan :: XY
  gd_dragging :: "DragMode option"
  gd_lastMouse :: XY

text \<open>
  \<open>step\<close>: the updater passed to \<open>setPosition\<close>, together with the
  \<open>setIsRunning\<close>, \<open>setPath\<close> and \<open>setIteration\<close> calls it makes, in exact arithmetic.
\<close>

definition step :: "ScalarField \<Rightarrow> GDState \<Rightarrow> GDState" where
  "step activeFunc s =
    (let prev = gd_position s;
         gradX = fn_df_dx activeFunc (xy_x prev) (xy_y prev);
         gradY = fn_df_dy activeFunc (xy_x prev) (xy_y prev);
         nextX = xy_x prev - gd_learningRate s * gradX;
         nextY = xy_y prev - gd_learningRate s * gradY;
         dist = sqrt ((nextX - xy_x prev)\<^sup>2 + (nextY - xy_y prev)\<^sup>2)
     in if dist < 0.001 \<or> dist > 10
        then s\<lparr> gd_isRunning := False \<rparr>
        else (let currentZ = fn_f activeFunc (xy_x prev) (xy_y prev)
              in s\<lparr> gd_path := gd_path s @ [\<lparr> px = xy_x prev, py = currentZ, pz = xy_y prev \<rparr>],
                     gd_iteration := gd_iteration s + 1,
                     gd_position := \<lparr> xy_x = nextX, xy_y = nextY \<rparr> \<rparr>))"

text \<open>
  The same table entry and the same \<open>step\<close> with the rounding of the arithmetic as a
  parameter: \<open>(x*x + y*y) / 4\<close> rounds after each product, after the sum and after the
  division; \<open>prev.x - learningRate * gradX\<close> rounds the product and the difference;
  \<open>Math.sqrt((nextX-prev.x)**2 + (nextY-prev.y)**2)\<close> rounds each difference, each
  square, the sum and the root. The literal \<open>0.001\<close> is the double nearest to it; \<open>10\<close>,
  \<open>2\<close> and \<open>4\<close> are doubles. With \<open>rnd = (\<lambda>v. v)\<close> these are \<open>bowl\<close> and \<open>step\<close>.
\<close>

definition bowl_rnd :: "(real \<Rightarrow> real) \<Rightarrow> ScalarField" where
  "bowl_rnd rnd = \<lparr> fn_f = (\<lambda>x y. rnd (rnd (rnd (x * x) + rnd (y * y)) / 4)),
                    fn_df_dx = (\<lambda>x y. rnd (x / 2)),
                    fn_df_dy = (\<lambda>x y. rnd (y / 2)),
                    fn_start = \<lparr> xy_x = 3, xy_y = 3 \<rparr>,
                    fn_range = 4 \<rparr>"

definition step_rnd :: "(real \<Rightarrow> real) \<Rightarrow> ScalarField \<Rightarrow> GDState \<Rightarrow> GDState" where
  "step_rnd rnd activeFunc s =
    (let prev = gd_position s;
         gradX = fn_df_dx activeFunc (xy_x prev) (xy_y prev);
         gradY = fn_df_dy activeFunc (xy_x prev) (xy_y prev);
         nextX = rnd (xy_x prev - rnd (gd_learningRate s * gradX));
         nextY = rnd (xy_y prev - rnd (gd_learningRate s * gradY));
         dist = rnd (sqrt (rnd (rnd ((rnd (nextX - xy_x prev))\<^sup>2)
                                + rnd ((rnd (nextY - xy_y prev))\<^sup>2))))
     in if dist < rnd 0.001 \<or> dist > 10
        then s\<lparr> gd_isRunning := False \<rparr>
        else (let currentZ = fn_f activeFunc (xy_x prev) (xy_y prev)
              in s\<lparr> gd_path := gd_path s @ [\<lparr> px = xy_x prev, py = currentZ, pz = xy_y prev \<rparr>],
                     gd_iteration := gd_iteration s + 1,
                     gd_position := \<lparr> xy_x = nextX, xy_y = nextY \<rparr> \<rparr>))"

text \<open>
  The value of the local \<open>dist\<close> that \<open>step\<close> computes in state \<open>s\<close>: the Euclidean
  distance between the position and the candidate position.
\<close>

definition stepDisplacement :: "ScalarField \<Rightarrow> GDState \<Rightarrow> real" where
  "stepDisplacement activeFunc s =
    (let prev = gd_position s;
         nextX = xy_x prev - gd_learningRate s * fn_df_dx activeFunc (xy_x prev) (xy_y prev);
         nextY = xy_y prev - gd_learningRate s * fn_df_dy activeFunc (xy_x prev) (xy_y prev)
     in sqrt ((nextX - xy_x prev)\<^sup>2 + (nextY - xy_y prev)\<^sup>2))"

text \<open>The value of the field at the current position (the height of the ball).\<close>

definition currentHeight :: "ScalarField \<Rightarrow> GDState \<Rightarrow> real" where
  "currentHeight activeFunc s =
     fn_f activeFunc (xy_x (gd_position s)) (xy_y (gd_position s))"

text \<open>
  The \<open>useEffect\<close> that installs \<open>setInterval(() => step(), 100)\<close> while \<open>isRunning\<close>
  holds and clears it when \<open>isRunning\<close> becomes false: \<open>step\<close> is called again and
  again until a call switches \<open>isRunning\<close> off. A run that never stops has no result
  (\<open>None\<close>).
\<close>

partial_function (option) runInterval :: "ScalarField \<Rightarrow> GDState \<Rightarrow> GDState option" where
  "runInterval activeFunc s =
     (if gd_isRunning s then runInterval activeFunc (step activeFunc s) else Some s)"

text \<open>The initial values of the \<open>useState\<close> cells (\<open>funcIndex = 0\<close> selects the bowl).\<close>

definition gd_init :: GDState where
  "gd_init = \<lparr> gd_funcIndex = 0, gd_learningRate = 0.1, gd_isRunning = False,
               gd_position = fn_start (FUNCTIONS ! 0), gd_path = [], gd_iteration = 0,
               gd_camera = \<lparr> xy_x = -0.5, xy_y = 0.5 \<rparr>, gd_scale = 40,
               gd_pan = \<lparr> xy_x = 0, xy_y = 0 \<rparr>, gd_dragging = None,
               gd_lastMouse = \<lparr> xy_x = 0, xy_y = 0 \<rparr> \<rparr>"

text \<open>The state after the start button's \<open>setIsRunning(true)\<close> on the initial state.\<close>

definition gd_started :: GDState where
  "gd_started = gd_init\<lparr> gd_isRunning := True \<rparr>"


section \<open>Eigen-alignment test (EigenvectorsLevel.tsx)\<close>

text \<open>\<open>interface Vector2 { x: number; y: number; }\<close>\<close>

record Vector2 =
  v2_x :: real
  v2_y :: real

text \<open>
  The alignment check inside \<open>draw\<close>: \<open>let isAligned = false\<close>, then a \<open>forEach\<close> over
  the preset's \<open>eigenLines\<close> that sets the flag when \<open>Math.abs(cross) < 0.1\<close>, where
  \<open>cross = probeBase.x * line.y - probeBase.y * line.x\<close> rounds the two products and
  the difference and \<open>0.1\<close> is the double nearest to it.
\<close>

definition isAligned :: "(real \<Rightarrow> real) \<Rightarrow> Vector2 \<Rightarrow> Vector2 list \<Rightarrow> bool" where
  "isAligned rnd probeBase eigenLines =
     foldl (\<lambda>aligned line.
              (let cross = rnd (rnd (v2_x probeBase * v2_y line) - rnd (v2_y probeBase * v2_x line))
               in if \<bar>cross\<bar> < rnd 0.1 then True else aligned))
           False eigenLines"

section \<open>Projection (VectorPlayground.tsx)\<close>

text \<open>
  \<open>interface Vector3 { x: number; y: number; z: number; }\<close>. The component type is a
  parameter: geometry uses real components, the text fields of the panel use
  JavaScript numbers with NaN.
\<close>

record 'n Vector3 =
  v3_x :: 'n
  v3_y :: 'n
  v3_z :: 'n

definition rotateX :: "real Vector3 \<Rightarrow> real \<Rightarrow> real Vector3" where
  "rotateX v angle =
     \<lparr> v3_x = v3_x v,
       v3_y = v3_y v * cos angle - v3_z v * sin angle,
       v3_z = v3_y v * sin angle + v3_z v * cos angle \<rparr>"

definition rotateY :: "real Vector3 \<Rightarrow> real \<Rightarrow> real Vector3" where
  "rotateY v angle =
     \<lparr> v3_x = v3_x v * cos angle + v3_z v * sin angle,
       v3_y = v3_y v,
       v3_z = - v3_x v * sin angle + v3_z v * cos angle \<rparr>"

text \<open>
  The view state that \<open>project\<close> closes over: \<open>is3D\<close>, \<open>cameraAngle\<close> (\<open>x\<close> is the
  pitch, \<open>y\<close> the yaw), \<open>scale\<close> and \<open>pan\<close>.
\<close>

record VPView =
  vp_is3D :: bool
  vp_cameraAngle :: XY
  vp_scale :: real
  vp_pan :: XY

definition project :: "VPView \<Rightarrow> real Vector3 \<Rightarrow> real \<Rightarrow> real \<Rightarrow> real Vector3" where
  "project view v width height =
     (let p = (if vp_is3D view
               then rotateX (rotateY v (xy_y (vp_cameraAngle view))) (xy_x (vp_cameraAngle view))
               else \<lparr> v3_x = v3_x v, v3_y = v3_y v, v3_z = 0 \<rparr>)
      in \<lparr> v3_x = width / 2 + xy_x (vp_pan view) + (v3_x p * vp_scale view),
           v3_y = height / 2 + xy_y (vp_pan view) - (v3_y p * vp_scale view),
           v3_z = v3_z p \<rparr>)"

section \<open>Depth-sorted render list (MatrixTransformLevel.tsx)\<close>







text \<open>
  \<open>interface RenderItem { type: 'LINE' | 'ARROW' | 'FACE'; z: number; draw: () => void }\<close>.
  A \<open>draw\<close> closure issues canvas calls: it is a function on the canvas state \<open>'c\<close>
  that either returns the new canvas (\<open>Inr\<close>) or throws (\<open>Inl\<close>, with the exception and
  the canvas as it was left).
\<close>

datatype ItemType = LINE | ARROW | FACE

record 'c RenderItem =
  ri_type :: ItemType
  ri_z :: real
  ri_draw :: "'c \<Rightarrow> (string \<times> 'c) + 'c"




text \<open>
  \<open>renderList.sort((a, b) => b.z - a.z)\<close>: a stable sort, larger \<open>z\<close> first.
\<close>

definition sortRenderList :: "'c RenderItem list \<Rightarrow> 'c RenderItem list" where
  "sortRenderList renderList = sort_key (\<lambda>item. - ri_z item) renderList"

text \<open>
  \<open>renderList.forEach(item => item.draw())\<close> (and \<open>prisms.forEach(p => p.draw())\<close> in
  the integral view): the closures run in list order; there is no \<open>try\<close> around the
  call, so an exception ends the loop and leaves \<open>forEach\<close>.
\<close>

fun runDraws :: "'c RenderItem list \<Rightarrow> 'c \<Rightarrow> (string \<times> 'c) + 'c" where
  "runDraws [] c = Inr c"
| "runDraws (item # items) c =
     (case ri_draw item c of Inl e \<Rightarrow> Inl e | Inr c' \<Rightarrow> runDraws items c')"

text \<open>The last two statements of \<open>draw\<close>: sort, then run.\<close>

definition sortAndDraw :: "'c RenderItem list \<Rightarrow> 'c \<Rightarrow> (string \<times> 'c) + 'c" where
  "sortAndDraw renderList c = runDraws (sortRenderList renderList) c"

text \<open>
  Two paint closures for concrete frames, on a canvas that is the list of the strokes
  made so far: one that records a stroke, one that throws.
\<close>

definition paintStroke :: "string \<Rightarrow> string list \<Rightarrow> (string \<times> string list) + string list" where
  "paintStroke label c = Inr (c @ [label])"

definition paintThrows :: "string \<Rightarrow> string list \<Rightarrow> (string \<times> string list) + string list" where
  "paintThrows msg c = Inl (msg, c)"

section \<open>Numeric text fields (MatrixTransform.tsx, VectorPlayground.tsx, DotProductLevel)\<close>

text \<open>
  A JavaScript number as a text field can deliver it: NaN, an infinity or a finite
  value (taken exactly; rounding to a double is not modelled).
\<close>

datatype Number = NaN | PosInfinity | NegInfinity | Num real

text \<open>
  The built-in \<open>parseFloat\<close>, after ECMAScript: leading white space is skipped, then the
  longest prefix that is a \<open>StrDecimalLiteral\<close> (optional sign, then \<open>Infinity\<close> or
  digits with an optional fraction and an optional exponent, or a fraction starting
  with the dot) is the value; when there is no such prefix the result is NaN.
\<close>

definition isStrWhiteSpace :: "char \<Rightarrow> bool" where
  "isStrWhiteSpace ch =
     (ch \<in> set [CHR 0x09, CHR 0x0A, CHR 0x0B, CHR 0x0C, CHR 0x0D, CHR '' ''])"

definition digitValue :: "char \<Rightarrow> nat option" where
  "digitValue ch =
     map_of [(CHR ''0'', 0), (CHR ''1'', 1), (CHR ''2'', 2), (CHR ''3'', 3), (CHR ''4'', 4),
             (CHR ''5'', 5), (CHR ''6'', 6), (CHR ''7'', 7), (CHR ''8'', 8), (CHR ''9'', 9)] ch"

fun takeDigits :: "string \<Rightarrow> nat list \<times> string" where
  "takeDigits [] = ([], [])"
| "takeDigits (ch # cs) =
     (case digitValue ch of
        None \<Rightarrow> ([], ch # cs)
      | Some d \<Rightarrow> (case takeDigits cs of (ds, rest) \<Rightarrow> (d # ds, rest)))"

definition digitsValue :: "nat list \<Rightarrow> nat" where
  "digitsValue ds = foldl (\<lambda>acc d. 10 * acc + d) 0 ds"

definition takeSign :: "string \<Rightarrow> bool \<times> string" where
  "takeSign s =
     (case s of
        [] \<Rightarrow> (False, [])
      | ch # cs \<Rightarrow> if ch = CHR ''-'' then (True, cs)
                  else if ch = CHR ''+'' then (False, cs) else (False, s))"

definition parseExponent :: "string \<Rightarrow> int" where
  "parseExponent s =
     (case s of
        [] \<Rightarrow> 0
      | ch # cs \<Rightarrow>
          if ch = CHR ''e'' \<or> ch = CHR ''E''
          then (case takeSign cs of
                  (neg, cs') \<Rightarrow>
                    (case takeDigits cs' of
                       (ds, rest) \<Rightarrow>
                         if ds = [] then 0
                         else if neg then - int (digitsValue ds) else int (digitsValue ds)))
          else 0)"

definition parseFloat :: "string \<Rightarrow> Number" where
  "parseFloat string =
     (case takeSign (dropWhile isStrWhiteSpace string) of
        (neg, body) \<Rightarrow>
          if take 8 body = ''Infinity'' then (if neg then NegInfinity else PosInfinity)
          else (case takeDigits body of
                  (ip, r1) \<Rightarrow>
                    (case (case r1 of
                             [] \<Rightarrow> ([], r1)
                           | ch # cs \<Rightarrow> if ch = CHR ''.'' then takeDigits cs else ([], r1)) of
                       (fp, r2) \<Rightarrow>
                         if ip = [] \<and> fp = [] then NaN
                         else (let mag = (real (digitsValue ip)
                                          + real (digitsValue fp) / 10 ^ length fp)
                                         * 10 powi parseExponent r2
                               in Num (if neg then - mag else mag)))))"

definition isNaN :: "Number \<Rightarrow> bool" where
  "isNaN num = (num = NaN)"

text \<open>\<open>n || 0\<close> on a number: NaN and zero are falsy and give 0, every other \<open>n\<close> gives \<open>n\<close>.\<close>

definition orZero :: "Number \<Rightarrow> Number" where
  "orZero n = (case n of NaN \<Rightarrow> Num 0 | Num r \<Rightarrow> (if r = 0 then Num 0 else Num r) | PosInfinity \<Rightarrow> PosInfinity | NegInfinity \<Rightarrow> NegInfinity)"

text \<open>\<open>interface Matrix2x2 { a: number; b: number; c: number; d: number; }\<close>, row-major.\<close>

record 'n Matrix2x2 =
  m2_a :: 'n
  m2_b :: 'n
  m2_c :: 'n
  m2_d :: 'n

text \<open>\<open>keyof Matrix2x2\<close> and the computed-key update \<open>{ ...prev, [key]: num }\<close>.\<close>

datatype MatrixKey = KeyA | KeyB | KeyC | KeyD

fun setMatrixKey :: "MatrixKey \<Rightarrow> 'n \<Rightarrow> 'n Matrix2x2 \<Rightarrow> 'n Matrix2x2" where
  "setMatrixKey KeyA num prev = prev\<lparr> m2_a := num \<rparr>"
| "setMatrixKey KeyB num prev = prev\<lparr> m2_b := num \<rparr>"
| "setMatrixKey KeyC num prev = prev\<lparr> m2_c := num \<rparr>"
| "setMatrixKey KeyD num prev = prev\<lparr> m2_d := num \<rparr>"

text \<open>\<open>updateMatrix\<close> of MatrixTransform.tsx, as a function on the \<open>matrix\<close> state.\<close>

definition updateMatrix :: "MatrixKey \<Rightarrow> string \<Rightarrow> Number Matrix2x2 \<Rightarrow> Number Matrix2x2" where
  "updateMatrix key val matrix =
     (let num = parseFloat val
      in if \<not> isNaN num then setMatrixKey key num matrix else matrix)"

text \<open>\<open>keyof Vector3\<close> and the update \<open>{ ...vec, [axis]: n }\<close>.\<close>

datatype Axis = AxisX | AxisY | AxisZ

fun setAxis :: "Axis \<Rightarrow> 'n \<Rightarrow> 'n Vector3 \<Rightarrow> 'n Vector3" where
  "setAxis AxisX n vec = vec\<lparr> v3_x := n \<rparr>"
| "setAxis AxisY n vec = vec\<lparr> v3_y := n \<rparr>"
| "setAxis AxisZ n vec = vec\<lparr> v3_z := n \<rparr>"

text \<open>
  \<open>ColumnVector.handleChange\<close> of VectorPlayground.tsx. \<open>onChange\<close> is optional (the
  read-only column \<open>R\<close> has none): the result is the vector \<open>onChange\<close> is called with,
  which becomes the new \<open>vecA\<close> or \<open>vecB\<close>, or \<open>None\<close> when there is no \<open>onChange\<close>.
\<close>

definition handleChange :: "bool \<Rightarrow> Number Vector3 \<Rightarrow> Axis \<Rightarrow> string \<Rightarrow> Number Vector3 option" where
  "handleChange hasOnChange vec axis val =
     (if hasOnChange then Some (setAxis axis (orZero (parseFloat val)) vec) else None)"

text \<open>
  \<open>ColumnVector.handleChange\<close> of DotProductLevel (GradientDescent.tsx, second
  component of the file): \<open>onChange\<close> is required and always called.
\<close>

definition dp_handleChange :: "Number Vector3 \<Rightarrow> Axis \<Rightarrow> string \<Rightarrow> Number Vector3" where
  "dp_handleChange vec axis val = setAxis axis (orZero (parseFloat val)) vec"

section \<open>Pointer interaction of the gradient-descent view (GradientDescent.tsx)\<close>








definition handleMouseUp :: "GDState \<Rightarrow> GDState" where
  "handleMouseUp s = s\<lparr> gd_dragging := None \<rparr>"


section \<open>Matrix composition animator (MatrixMultiplicationLevel.tsx)\<close>

text \<open>\<open>interface TransformationStep { id; name; matrix; color }\<close>\<close>

record TransformationStep =
  ts_id :: string
  ts_name :: string
  ts_matrix :: "real Matrix2x2"
  ts_color :: string

text \<open>Helper: multiply two 2x2 matrices (A * B), apply B first, then A.\<close>

definition multiply :: "real Matrix2x2 \<Rightarrow> real Matrix2x2 \<Rightarrow> real Matrix2x2" where
  "multiply m1 m2 =
     \<lparr> m2_a = m2_a m1 * m2_a m2 + m2_b m1 * m2_c m2,
       m2_b = m2_a m1 * m2_b m2 + m2_b m1 * m2_d m2,
       m2_c = m2_c m1 * m2_a m2 + m2_d m1 * m2_c m2,
       m2_d = m2_c m1 * m2_b m2 + m2_d m1 * m2_d m2 \<rparr>"

text \<open>Helper: linear interpolation between matrices.\<close>

definition lerpMatrix :: "real Matrix2x2 \<Rightarrow> real Matrix2x2 \<Rightarrow> real \<Rightarrow> real Matrix2x2" where
  "lerpMatrix m1 m2 t =
     \<lparr> m2_a = m2_a m1 + (m2_a m2 - m2_a m1) * t,
       m2_b = m2_b m1 + (m2_b m2 - m2_b m1) * t,
       m2_c = m2_c m1 + (m2_c m2 - m2_c m1) * t,
       m2_d = m2_d m1 + (m2_d m2 - m2_d m1) * t \<rparr>"

text \<open>The literal \<open>{ a: 1, b: 0, c: 0, d: 1 }\<close>.\<close>

definition identityM :: "real Matrix2x2" where
  "identityM = \<lparr> m2_a = 1, m2_b = 0, m2_c = 0, m2_d = 1 \<rparr>"

text \<open>The animation-related \<open>useState\<close> cells of the component.\<close>

record MMState =
  mm_queue :: "TransformationStep list"
  mm_isAnimating :: bool
  mm_currentMatrix :: "real Matrix2x2"
  mm_stepIndex :: nat
  mm_progress :: real
  mm_accumulatedMatrix :: "real Matrix2x2"

definition mm_init :: MMState where
  "mm_init = \<lparr> mm_queue = [], mm_isAnimating = False, mm_currentMatrix = identityM,
               mm_stepIndex = 0, mm_progress = 0, mm_accumulatedMatrix = identityM \<rparr>"

text \<open>
  \<open>queue[stepIndex].matrix\<close>: an index outside the queue yields \<open>undefined\<close>, and
  reading \<open>.matrix\<close> of it throws a \<open>TypeError\<close>.
\<close>

definition stepMatrixAt :: "TransformationStep list \<Rightarrow> nat \<Rightarrow> string + real Matrix2x2" where
  "stepMatrixAt queue i = (if i < length queue then Inr (ts_matrix (queue ! i)) else Inl ''TypeError'')"

text \<open>
  One call of \<open>loop\<close> in the animation effect: the \<open>setProgress\<close> updater with the
  \<open>setAccumulatedMatrix\<close>, \<open>setStepIndex\<close>, \<open>setCurrentMatrix\<close> and \<open>setIsAnimating\<close>
  calls it makes.
\<close>

definition progressTick :: "MMState \<Rightarrow> string + MMState" where
  "progressTick s =
     (let next = mm_progress s + 0.02
      in if next \<ge> 1
         then (if int (mm_stepIndex s) < int (length (mm_queue s)) - 1
               then (case stepMatrixAt (mm_queue s) (mm_stepIndex s) of
                       Inl e \<Rightarrow> Inl e
                     | Inr stepM \<Rightarrow>
                         (let newAcc = multiply stepM (mm_accumulatedMatrix s)
                          in Inr (s\<lparr> mm_accumulatedMatrix := newAcc,
                                     mm_stepIndex := mm_stepIndex s + 1,
                                     mm_progress := 0 \<rparr>)))
               else (case stepMatrixAt (mm_queue s) (mm_stepIndex s) of
                       Inl e \<Rightarrow> Inl e
                     | Inr lastStepM \<Rightarrow>
                         (let finalM = multiply lastStepM (mm_accumulatedMatrix s)
                          in Inr (s\<lparr> mm_currentMatrix := finalM,
                                     mm_isAnimating := False,
                                     mm_progress := 1 \<rparr>))))
         else Inr (s\<lparr> mm_progress := next \<rparr>))"

text \<open>The effect "Update Visual Matrix based on Animation".\<close>

definition visualEffect :: "MMState \<Rightarrow> string + MMState" where
  "visualEffect s =
     (if mm_isAnimating s \<and> length (mm_queue s) > 0
      then (case stepMatrixAt (mm_queue s) (mm_stepIndex s) of
              Inl e \<Rightarrow> Inl e
            | Inr stepM \<Rightarrow>
                (let targetM = multiply stepM (mm_accumulatedMatrix s);
                     t = mm_progress s * mm_progress s * (3 - 2 * mm_progress s)
                 in Inr (s\<lparr> mm_currentMatrix := lerpMatrix (mm_accumulatedMatrix s) targetM t \<rparr>)))
      else if \<not> mm_isAnimating s \<and> length (mm_queue s) = 0
      then Inr (s\<lparr> mm_currentMatrix := identityM, mm_accumulatedMatrix := identityM \<rparr>)
      else Inr s)"

text \<open>One animation frame: the progress update, then the visual effect on the new state.\<close>

definition animationFrame :: "MMState \<Rightarrow> string + MMState" where
  "animationFrame s = (case progressTick s of Inl e \<Rightarrow> Inl e | Inr s' \<Rightarrow> visualEffect s')"

text \<open>
  The animation effect keeps requesting frames while \<open>isAnimating\<close> holds. A run that
  never stops has no result (\<open>None\<close>); an exception ends it.
\<close>

partial_function (option) animate :: "MMState \<Rightarrow> (string + MMState) option" where
  "animate s =
     (if mm_isAnimating s
      then (case animationFrame s of Inl e \<Rightarrow> Some (Inl e) | Inr s' \<Rightarrow> animate s')
      else Some (Inr s))"

definition addStep :: "string \<Rightarrow> string \<Rightarrow> MMState \<Rightarrow> MMState" where
  "addStep type now s =
     (if mm_isAnimating s then s
      else if type = ''ROTATE''
        then s\<lparr> mm_queue := mm_queue s @
               [\<lparr> ts_id = now, ts_name = ''ROTAR 90'',
                  ts_matrix = \<lparr> m2_a = 0, m2_b = - 1, m2_c = 1, m2_d = 0 \<rparr>,
                  ts_color = ''text-yellow-400'' \<rparr>] \<rparr>
      else if type = ''SCALE''
        then s\<lparr> mm_queue := mm_queue s @
               [\<lparr> ts_id = now, ts_name = ''ESCALAR 1.5x'',
                  ts_matrix = \<lparr> m2_a = 1.5, m2_b = 0, m2_c = 0, m2_d = 1.5 \<rparr>,
                  ts_color = ''text-green-400'' \<rparr>] \<rparr>
      else if type = ''SHEAR''
        then s\<lparr> mm_queue := mm_queue s @
               [\<lparr> ts_id = now, ts_name = ''CIZALLA X'',
                  ts_matrix = \<lparr> m2_a = 1, m2_b = 1, m2_c = 0, m2_d = 1 \<rparr>,
                  ts_color = ''text-red-400'' \<rparr>] \<rparr>
      else if type = ''REFLECT''
        then s\<lparr> mm_queue := mm_queue s @
               [\<lparr> ts_id = now, ts_name = ''REFLEJO X'',
                  ts_matrix = \<lparr> m2_a = - 1, m2_b = 0, m2_c = 0, m2_d = 1 \<rparr>,
                  ts_color = ''text-blue-400'' \<rparr>] \<rparr>
      else s)"

definition runSequence :: "MMState \<Rightarrow> MMState" where
  "runSequence s =
     (if length (mm_queue s) = 0 then s
      else s\<lparr> mm_currentMatrix := identityM, mm_accumulatedMatrix := identityM,
              mm_stepIndex := 0, mm_progress := 0, mm_isAnimating := True \<rparr>)"

text \<open>
  The product \<open>M\<^sub>k * \<dots> * M\<^sub>2 * M\<^sub>1\<close> of the matrices \<open>[M\<^sub>1, \<dots>, M\<^sub>k]\<close> applied on top of
  \<open>A\<close>: each next matrix multiplies from the left.
\<close>

definition composeOnto :: "real Matrix2x2 \<Rightarrow> real Matrix2x2 list \<Rightarrow> real Matrix2x2" where
  "composeOnto A ms = foldl (\<lambda>acc M. multiply M acc) A ms"

section \<open>Riemann-sum volume (IntegralVisualizer, second component of ComingSoon.tsx)\<close>

text \<open>
  The number of turns of the grid loops \<open>for (let x = -range; x < range; x += step)\<close>
  depends on how the additions \<open>x += step\<close> are rounded, so this section carries the
  rounding \<open>rnd\<close> of the arithmetic as a parameter, applied to the result of every
  arithmetic operation.
\<close>

text \<open>
  \<open>FUNCTIONS[0]\<close>, the paraboloid \<open>f = (x, y) => 1 + (x*x + y*y) / 8\<close>, the entry that
  \<open>funcIndex = 0\<close> selects; its \<open>range\<close> is 3.
\<close>

definition paraboloide :: "(real \<Rightarrow> real) \<Rightarrow> real \<Rightarrow> real \<Rightarrow> real" where
  "paraboloide rnd x y = rnd (1 + rnd (rnd (rnd (x * x) + rnd (y * y)) / 8))"

text \<open>
  What the \<open>draw\<close> closure of a pushed prism captures of the cell: its corner
  \<open>(x, y)\<close> and its height. (\<open>centerZ\<close>, \<open>isSample\<close> and the colours depend on the
  camera and the sample toggle and play no part in the sum.)
\<close>

record Prism =
  prism_x :: real
  prism_y :: real
  prism_height :: real

text \<open>
  The inner and the outer grid loop of \<open>draw\<close>, on the pair of \<open>vol\<close> and \<open>prisms\<close>.
  A loop that never ends has no result (\<open>None\<close>).
\<close>

partial_function (option) gridLoopY ::
  "(real \<Rightarrow> real) \<Rightarrow> (real \<Rightarrow> real \<Rightarrow> real) \<Rightarrow> real \<Rightarrow> real \<Rightarrow> real \<Rightarrow> real
     \<Rightarrow> real \<times> Prism list \<Rightarrow> (real \<times> Prism list) option" where
  "gridLoopY rnd f rng stp x y acc =
     (if y < rng then
        (let midX = rnd (x + rnd (stp / 2));
             midY = rnd (y + rnd (stp / 2));
             height = f midX midY
         in if height \<le> 0 then gridLoopY rnd f rng stp x (rnd (y + stp)) acc
            else gridLoopY rnd f rng stp x (rnd (y + stp))
                   (rnd (fst acc + rnd (height * rnd (stp * stp))),
                    snd acc @ [\<lparr> prism_x = x, prism_y = y, prism_height = height \<rparr>]))
      else Some acc)"

partial_function (option) gridLoopX ::
  "(real \<Rightarrow> real) \<Rightarrow> (real \<Rightarrow> real \<Rightarrow> real) \<Rightarrow> real \<Rightarrow> real \<Rightarrow> real
     \<Rightarrow> real \<times> Prism list \<Rightarrow> (real \<times> Prism list) option" where
  "gridLoopX rnd f rng stp x acc =
     (if x < rng then
        Option.bind (gridLoopY rnd f rng stp x (- rng) acc)
          (\<lambda>acc'. gridLoopX rnd f rng stp (rnd (x + stp)) acc')
      else Some acc)"

text \<open>
  The part of \<open>draw\<close> from \<open>const step = (range * 2) / resolution\<close> to
  \<open>setTotalVolume(vol)\<close>: the volume and the prisms in the order they are pushed.
\<close>

definition riemannGrid ::
  "(real \<Rightarrow> real) \<Rightarrow> (real \<Rightarrow> real \<Rightarrow> real) \<Rightarrow> real \<Rightarrow> nat \<Rightarrow> (real \<times> Prism list) option" where
  "riemannGrid rnd f rng resolution =
     (let stp = rnd (rnd (rng * 2) / real resolution)
      in gridLoopX rnd f rng stp (- rng) (0, []))"

text \<open>
  The claim's words, for comparison: the midpoint of cell \<open>i\<close> along an axis of the
  \<open>n \<times> n\<close> partition of \<open>[-r, r]\<^sup>2\<close> into cells of side \<open>2r / n\<close>, the contribution of cell
  \<open>(i, j)\<close> (nothing when the midpoint value is not positive), and the prism of the cell.
\<close>

definition cellMid :: "real \<Rightarrow> nat \<Rightarrow> nat \<Rightarrow> real" where
  "cellMid r n i = - r + real i * (2 * r / real n) + (2 * r / real n) / 2"

definition cellVolume :: "(real \<Rightarrow> real \<Rightarrow> real) \<Rightarrow> real \<Rightarrow> nat \<Rightarrow> nat \<Rightarrow> nat \<Rightarrow> real" where
  "cellVolume f r n i j =
     (if f (cellMid r n i) (cellMid r n j) > 0
      then f (cellMid r n i) (cellMid r n j) * ((2 * r / real n) * (2 * r / real n))
      else 0)"

definition cellPrism :: "(real \<Rightarrow> real \<Rightarrow> real) \<Rightarrow> real \<Rightarrow> nat \<Rightarrow> nat \<Rightarrow> nat \<Rightarrow> Prism" where
  "cellPrism f r n i j =
     \<lparr> prism_x = - r + real i * (2 * r / real n),
       prism_y = - r + real j * (2 * r / real n),
       prism_height = f (cellMid r n i) (cellMid r n j) \<rparr>"

text \<open>
  The first \<open>m\<close> values that a loop variable started at \<open>v\<close> takes under \<open>v += step\<close>,
  and the body of the inner loop as a function of the accumulated pair.
\<close>

primrec axisTicks :: "(real \<Rightarrow> real) \<Rightarrow> real \<Rightarrow> real \<Rightarrow> nat \<Rightarrow> real list" where
  "axisTicks rnd stp v 0 = []"
| "axisTicks rnd stp v (Suc m) = v # axisTicks rnd stp (rnd (v + stp)) m"

definition cellBody ::
  "(real \<Rightarrow> real) \<Rightarrow> (real \<Rightarrow> real \<Rightarrow> real) \<Rightarrow> real \<Rightarrow> real \<Rightarrow> real \<times> Prism list \<Rightarrow> real
     \<Rightarrow> real \<times> Prism list" where
  "cellBody rnd f stp x acc y =
     (let midX = rnd (x + rnd (stp / 2));
          midY = rnd (y + rnd (stp / 2));
          height = f midX midY
      in if height \<le> 0 then acc
         else (rnd (fst acc + rnd (height * rnd (stp * stp))),
               snd acc @ [\<lparr> prism_x = x, prism_y = y, prism_height = height \<rparr>]))"

text \<open>The value of the loop variable after \<open>m\<close> additions of \<open>step\<close>.\<close>

primrec axisEnd :: "(real \<Rightarrow> real) \<Rightarrow> real \<Rightarrow> real \<Rightarrow> nat \<Rightarrow> real" where
  "axisEnd rnd stp v 0 = v"
| "axisEnd rnd stp v (Suc m) = axisEnd rnd stp (rnd (v + stp)) m"

section \<open>Facts about square roots used to evaluate the stop test\<close>

lemma sqrt_less_iff_sq: "0 < c \<Longrightarrow> (sqrt x < c) = (x < c\<^sup>2)"
proof -
  assume c: "0 < c"
  have "sqrt (c\<^sup>2) = c" using c by simp
  then have "(sqrt x < c) = (sqrt x < sqrt (c\<^sup>2))" by simp
  also have "\<dots> = (x < c\<^sup>2)" by (rule real_sqrt_less_iff)
  finally show ?thesis .
qed

lemma less_sqrt_iff_sq: "0 < c \<Longrightarrow> (c < sqrt x) = (c\<^sup>2 < x)"
proof -
  assume c: "0 < c"
  have "sqrt (c\<^sup>2) = c" using c by simp
  then have "(c < sqrt x) = (sqrt (c\<^sup>2) < sqrt x)" by simp
  also have "\<dots> = (c\<^sup>2 < x)" by (rule real_sqrt_less_iff)
  finally show ?thesis .
qed

lemma sqrt_between:
  "0 < lo \<Longrightarrow> 0 < hi \<Longrightarrow> lo\<^sup>2 \<le> v \<Longrightarrow> v \<le> hi\<^sup>2 \<Longrightarrow> \<not> (sqrt v < lo \<or> sqrt v > hi)"
  by (simp add: sqrt_less_iff_sq less_sqrt_iff_sq not_less)

section \<open>Rounding to the nearest double\<close>

lemma floor_log2_shift:
  assumes lo: "2 ^ 52 \<le> \<bar>v\<bar> * 2 ^ s" and hi: "\<bar>v\<bar> * 2 ^ s < 2 ^ 53"
  shows "\<lfloor>log 2 \<bar>v\<bar>\<rfloor> = 52 - int s"
proof -
  have pos: "0 < \<bar>v\<bar>"
  proof (rule ccontr)
    assume "\<not> 0 < \<bar>v\<bar>"
    then have "\<bar>v\<bar> = 0" by simp
    with lo show False by simp
  qed
  have p: "(0::real) < 2 ^ s" by simp
  have l: "log 2 (\<bar>v\<bar> * 2 ^ s) = log 2 \<bar>v\<bar> + real s"
    using pos p by (simp add: log_mult log_nat_power)
  have l52: "log 2 ((2::real) ^ 52) = 52" and l53: "log 2 ((2::real) ^ 53) = 53"
    using log_pow_cancel [of 2 52] log_pow_cancel [of 2 53] by simp_all
  have "log 2 (2 ^ 52) \<le> log 2 (\<bar>v\<bar> * 2 ^ s)"
    using lo pos p by (subst log_le_cancel_iff) simp_all
  then have a: "52 \<le> log 2 \<bar>v\<bar> + real s"
    unfolding l l52 .
  have "log 2 (\<bar>v\<bar> * 2 ^ s) < log 2 (2 ^ 53)"
    using hi pos p by (subst log_less_cancel_iff) simp_all
  then have b: "log 2 \<bar>v\<bar> + real s < 53"
    unfolding l l53 .
  show ?thesis
  proof (rule floor_unique)
    show "of_int (52 - int s) \<le> log 2 \<bar>v\<bar>" using a by simp
    show "log 2 \<bar>v\<bar> < of_int (52 - int s) + 1" using b by simp
  qed
qed

lemma round_double_cert:
  assumes lo: "2 ^ 52 \<le> \<bar>v\<bar> * 2 ^ s" and hi: "\<bar>v\<bar> * 2 ^ s < 2 ^ 53"
      and m: "round_half_even (v * 2 ^ s) = m"
  shows "round_double v = of_int m / 2 ^ s"
proof -
  have nz: "v \<noteq> 0" using lo by auto
  have e: "\<lfloor>log 2 \<bar>v\<bar>\<rfloor> - 52 = - int s"
    using floor_log2_shift [OF lo hi] by simp
  have pw: "2 powr of_int (- int s) = 1 / (2::real) ^ s"
    by (simp add: powr_minus powr_realpow divide_inverse)
  show ?thesis
    unfolding round_double_def Let_def e pw using nz m by simp
qed

lemma round_half_even_cert:
  assumes lo: "of_int m - 1 / 2 < x" and hi: "x < of_int m + 1 / 2"
  shows "round_half_even x = m"
proof (cases "x < of_int m")
  case True
  have fl: "\<lfloor>x\<rfloor> = m - 1"
  proof (rule floor_unique)
    show "of_int (m - 1) \<le> x" using lo by simp
    show "x < of_int (m - 1) + 1" using True by simp
  qed
  have "\<not> x - of_int (m - 1) < 1 / 2" using lo by simp
  moreover have "x - of_int (m - 1) > 1 / 2" using lo by simp
  ultimately show ?thesis unfolding round_half_even_def Let_def fl by simp
next
  case False
  have fl: "\<lfloor>x\<rfloor> = m"
  proof (rule floor_unique)
    show "of_int m \<le> x" using False by simp
    show "x < of_int m + 1" using hi by simp
  qed
  have "x - of_int m < 1 / 2" using hi by simp
  then show ?thesis unfolding round_half_even_def Let_def fl by simp
qed

lemma round_double_sqrt_cert:
  assumes m: "2 ^ 52 < m" "m < 2 ^ 53"
      and below: "((of_int m - 1 / 2) / 2 ^ s)\<^sup>2 < v"
      and above: "v < ((of_int m + 1 / 2) / 2 ^ s)\<^sup>2"
  shows "round_double (sqrt v) = of_int m / 2 ^ s"
proof -
  have mr: "(2::real) ^ 52 < of_int m" "(of_int m :: real) < 2 ^ 53"
    using m by (simp_all flip: of_int_less_iff)
  have mi: "(2::real) ^ 52 + 1 \<le> of_int m" "(of_int m :: real) + 1 \<le> 2 ^ 53"
    using m by (simp_all flip: of_int_le_iff)
  have cl: "0 < (of_int m - 1 / 2) / (2::real) ^ s" and cu: "0 < (of_int m + 1 / 2) / (2::real) ^ s"
    using mr by simp_all
  have l: "(of_int m - 1 / 2) / 2 ^ s < sqrt v"
    using below by (simp only: less_sqrt_iff_sq [OF cl])
  have u: "sqrt v < (of_int m + 1 / 2) / 2 ^ s"
    using above by (simp only: sqrt_less_iff_sq [OF cu])
  have p: "(0::real) < 2 ^ s" by simp
  have l': "of_int m - 1 / 2 < sqrt v * 2 ^ s"
    using l p by (simp add: divide_less_eq)
  have u': "sqrt v * 2 ^ s < of_int m + 1 / 2"
    using u p by (simp add: less_divide_eq)
  have pos: "0 < sqrt v" using cl l by linarith
  then have av: "\<bar>sqrt v\<bar> = sqrt v" by simp
  have r: "round_half_even (sqrt v * 2 ^ s) = m"
    by (rule round_half_even_cert [OF l' u'])
  show ?thesis
  proof (rule round_double_cert [OF _ _ r])
    show "2 ^ 52 \<le> \<bar>sqrt v\<bar> * 2 ^ s" unfolding av using l' mi by linarith
    show "\<bar>sqrt v\<bar> * 2 ^ s < 2 ^ 53" unfolding av using u' mi by linarith
  qed
qed

lemma double_zero: "round_double 0 = 0"
  by (simp add: round_double_def)

section \<open>The gradient-descent step\<close>

text \<open>In exact arithmetic the rounded step is \<open>step\<close>.\<close>

lemma step_rnd_exact: "step_rnd (\<lambda>v. v) fld s = step fld s"
  by (simp add: step_rnd_def step_def)

text \<open>
  C1. For every scalar field with its two partials and every rounding of the
  arithmetic, one call of the step computes the candidate
  \<open>x' = x - \<alpha> * df_dx x y\<close>, \<open>y' = y - \<alpha> * df_dy x y\<close>. When the Euclidean displacement
  between the old and the candidate position, as the code computes it, is below 0.001
  or above 10, the only change is that running becomes false (position, trail and
  iteration count stay). Otherwise the pre-step point \<open>(x, f x y, y)\<close> is appended to the
  trail, the iteration count grows by one, the position becomes \<open>(x', y')\<close> and running
  is untouched. With \<open>rnd = round_double\<close> this is the arithmetic of the program, with
  \<open>rnd = (\<lambda>v. v)\<close> exact arithmetic.
\<close>

theorem step_candidate_stop_or_accept:
  "(let x = xy_x (gd_position s); y = xy_y (gd_position s);
        x' = rnd (x - rnd (gd_learningRate s * fn_df_dx fld x y));
        y' = rnd (y - rnd (gd_learningRate s * fn_df_dy fld x y));
        d = rnd (sqrt (rnd (rnd ((rnd (x' - x))\<^sup>2) + rnd ((rnd (y' - y))\<^sup>2))))
    in (d < rnd 0.001 \<or> d > 10 \<longrightarrow>
          step_rnd rnd fld s = s\<lparr> gd_isRunning := False \<rparr>) \<and>
       (\<not> (d < rnd 0.001 \<or> d > 10) \<longrightarrow>
          gd_position (step_rnd rnd fld s) = \<lparr> xy_x = x', xy_y = y' \<rparr> \<and>
          gd_path (step_rnd rnd fld s) = gd_path s @ [\<lparr> px = x, py = fn_f fld x y, pz = y \<rparr>] \<and>
          gd_iteration (step_rnd rnd fld s) = gd_iteration s + 1 \<and>
          gd_isRunning (step_rnd rnd fld s) = gd_isRunning s \<and>
          step_rnd rnd fld s = s\<lparr> gd_path := gd_path (step_rnd rnd fld s),
                                   gd_iteration := gd_iteration (step_rnd rnd fld s),
                                   gd_position := gd_position (step_rnd rnd fld s) \<rparr>))"
  by (simp add: step_rnd_def Let_def)

text \<open>
  The roundings of two steps of the bowl in double arithmetic. From the ball at
  \<open>(0, 0.19999999999999973)\<close> with learning rate \<open>0.01\<close> the displacement comes out as
  \<open>4611686018427392 / 2\<^sup>6\<^sup>2 = 0.0010000000000000009\<close>, which is not below the double
  \<open>0.001 = 4611686018427388 / 2\<^sup>6\<^sup>2\<close>, so the step is accepted. From \<open>(0.01, 0)\<close> with
  learning rate \<open>0.2\<close> it comes out as \<open>4611686018427384 / 2\<^sup>6\<^sup>2 = 0.0009999999999999992\<close>,
  below the double \<open>0.001\<close>, so the step stops.
\<close>

lemma double_hundredth: "round_double (0.01) = 5764607523034235 / 2 ^ 59"
proof -
  have "round_double (0.01) = of_int 5764607523034235 / 2 ^ 59"
    by (rule round_double_cert) (simp_all add: round_half_even_def power2_eq_square)
  then show ?thesis by simp
qed

lemma double_thousandth: "round_double (0.001) = 4611686018427388 / 2 ^ 62"
proof -
  have "round_double (0.001) = of_int 4611686018427388 / 2 ^ 62"
    by (rule round_double_cert) (simp_all add: round_half_even_def power2_eq_square)
  then show ?thesis by simp
qed

lemma ball_grad: "round_double (7205759403792784 / 2 ^ 55 / 2) = 7205759403792784 / 2 ^ 56"
proof -
  have "round_double (7205759403792784 / 2 ^ 55 / 2) = of_int 7205759403792784 / 2 ^ 56"
    by (rule round_double_cert) (simp_all add: round_half_even_def power2_eq_square)
  then show ?thesis by simp
qed

lemma ball_scaled: "round_double (5764607523034235 / 2 ^ 59 * (7205759403792784 / 2 ^ 56)) = 4611686018427382 / 2 ^ 62"
proof -
  have "round_double (5764607523034235 / 2 ^ 59 * (7205759403792784 / 2 ^ 56)) = of_int 4611686018427382 / 2 ^ 62"
    by (rule round_double_cert) (simp_all add: round_half_even_def power2_eq_square)
  then show ?thesis by simp
qed

lemma ball_next: "round_double (7205759403792784 / 2 ^ 55 - 4611686018427382 / 2 ^ 62) = 7169730606773820 / 2 ^ 55"
proof -
  have "round_double (7205759403792784 / 2 ^ 55 - 4611686018427382 / 2 ^ 62) = of_int 7169730606773820 / 2 ^ 55"
    by (rule round_double_cert) (simp_all add: round_half_even_def power2_eq_square)
  then show ?thesis by simp
qed

lemma ball_diff: "round_double (7169730606773820 / 2 ^ 55 - 7205759403792784 / 2 ^ 55) = - (4611686018427392 / 2 ^ 62)"
proof -
  have "round_double (7169730606773820 / 2 ^ 55 - 7205759403792784 / 2 ^ 55) = of_int (- 4611686018427392) / 2 ^ 62"
    by (rule round_double_cert) (simp_all add: round_half_even_def power2_eq_square)
  then show ?thesis by simp
qed

lemma ball_diff_sq: "round_double ((- (4611686018427392 / 2 ^ 62))\<^sup>2) = 4722366482869654 / 2 ^ 72"
proof -
  have "round_double ((- (4611686018427392 / 2 ^ 62))\<^sup>2) = of_int 4722366482869654 / 2 ^ 72"
    by (rule round_double_cert) (simp_all add: round_half_even_def power2_eq_square)
  then show ?thesis by simp
qed

lemma ball_diff_sq_fixed: "round_double (4722366482869654 / 2 ^ 72) = 4722366482869654 / 2 ^ 72"
proof -
  have "round_double (4722366482869654 / 2 ^ 72) = of_int 4722366482869654 / 2 ^ 72"
    by (rule round_double_cert) (simp_all add: round_half_even_def power2_eq_square)
  then show ?thesis by simp
qed

lemma ball_square: "round_double (7205759403792784 / 2 ^ 55 * (7205759403792784 / 2 ^ 55)) = 5764607523034220 / 2 ^ 57"
proof -
  have "round_double (7205759403792784 / 2 ^ 55 * (7205759403792784 / 2 ^ 55)) = of_int 5764607523034220 / 2 ^ 57"
    by (rule round_double_cert) (simp_all add: round_half_even_def power2_eq_square)
  then show ?thesis by simp
qed

lemma ball_square_fixed: "round_double (5764607523034220 / 2 ^ 57) = 5764607523034220 / 2 ^ 57"
proof -
  have "round_double (5764607523034220 / 2 ^ 57) = of_int 5764607523034220 / 2 ^ 57"
    by (rule round_double_cert) (simp_all add: round_half_even_def power2_eq_square)
  then show ?thesis by simp
qed

lemma ball_height: "round_double (5764607523034220 / 2 ^ 57 / 4) = 5764607523034220 / 2 ^ 59"
proof -
  have "round_double (5764607523034220 / 2 ^ 57 / 4) = of_int 5764607523034220 / 2 ^ 59"
    by (rule round_double_cert) (simp_all add: round_half_even_def power2_eq_square)
  then show ?thesis by simp
qed

lemma ball_dist: "round_double (sqrt (4722366482869654 / 2 ^ 72)) = 4611686018427392 / 2 ^ 62"
proof -
  have "round_double (sqrt (4722366482869654 / 2 ^ 72)) = of_int 4611686018427392 / 2 ^ 62"
    by (rule round_double_sqrt_cert) (simp_all add: power2_eq_square)
  then show ?thesis by simp
qed

lemma double_fifth: "round_double (0.2) = 7205759403792794 / 2 ^ 55"
proof -
  have "round_double (0.2) = of_int 7205759403792794 / 2 ^ 55"
    by (rule round_double_cert) (simp_all add: round_half_even_def power2_eq_square)
  then show ?thesis by simp
qed

lemma edge_grad: "round_double (5764607523034235 / 2 ^ 59 / 2) = 5764607523034235 / 2 ^ 60"
proof -
  have "round_double (5764607523034235 / 2 ^ 59 / 2) = of_int 5764607523034235 / 2 ^ 60"
    by (rule round_double_cert) (simp_all add: round_half_even_def power2_eq_square)
  then show ?thesis by simp
qed

lemma edge_scaled: "round_double (7205759403792794 / 2 ^ 55 * (5764607523034235 / 2 ^ 60)) = 4611686018427388 / 2 ^ 62"
proof -
  have "round_double (7205759403792794 / 2 ^ 55 * (5764607523034235 / 2 ^ 60)) = of_int 4611686018427388 / 2 ^ 62"
    by (rule round_double_cert) (simp_all add: round_half_even_def power2_eq_square)
  then show ?thesis by simp
qed

lemma edge_next: "round_double (5764607523034235 / 2 ^ 59 - 4611686018427388 / 2 ^ 62) = 5188146770730812 / 2 ^ 59"
proof -
  have "round_double (5764607523034235 / 2 ^ 59 - 4611686018427388 / 2 ^ 62) = of_int 5188146770730812 / 2 ^ 59"
    by (rule round_double_cert) (simp_all add: round_half_even_def power2_eq_square)
  then show ?thesis by simp
qed

lemma edge_diff: "round_double (5188146770730812 / 2 ^ 59 - 5764607523034235 / 2 ^ 59) = - (4611686018427384 / 2 ^ 62)"
proof -
  have "round_double (5188146770730812 / 2 ^ 59 - 5764607523034235 / 2 ^ 59) = of_int (- 4611686018427384) / 2 ^ 62"
    by (rule round_double_cert) (simp_all add: round_half_even_def power2_eq_square)
  then show ?thesis by simp
qed

lemma edge_diff_sq: "round_double ((- (4611686018427384 / 2 ^ 62))\<^sup>2) = 4722366482869637 / 2 ^ 72"
proof -
  have "round_double ((- (4611686018427384 / 2 ^ 62))\<^sup>2) = of_int 4722366482869637 / 2 ^ 72"
    by (rule round_double_cert) (simp_all add: round_half_even_def power2_eq_square)
  then show ?thesis by simp
qed

lemma edge_diff_sq_fixed: "round_double (4722366482869637 / 2 ^ 72) = 4722366482869637 / 2 ^ 72"
proof -
  have "round_double (4722366482869637 / 2 ^ 72) = of_int 4722366482869637 / 2 ^ 72"
    by (rule round_double_cert) (simp_all add: round_half_even_def power2_eq_square)
  then show ?thesis by simp
qed

lemma edge_dist: "round_double (sqrt (4722366482869637 / 2 ^ 72)) = 4611686018427384 / 2 ^ 62"
proof -
  have "round_double (sqrt (4722366482869637 / 2 ^ 72)) = of_int 4611686018427384 / 2 ^ 62"
    by (rule round_double_sqrt_cert) (simp_all add: power2_eq_square)
  then show ?thesis by simp
qed

theorem step_candidate_stop_or_accept_witness:
  "gd_position (step_rnd round_double (bowl_rnd round_double)
       (gd_started\<lparr> gd_learningRate := round_double 0.01,
                     gd_position := \<lparr> xy_x = 0, xy_y = 7205759403792784 / 2 ^ 55 \<rparr> \<rparr>))
     = \<lparr> xy_x = 0, xy_y = 7169730606773820 / 2 ^ 55 \<rparr> \<and>
   gd_path (step_rnd round_double (bowl_rnd round_double)
       (gd_started\<lparr> gd_learningRate := round_double 0.01,
                     gd_position := \<lparr> xy_x = 0, xy_y = 7205759403792784 / 2 ^ 55 \<rparr> \<rparr>))
     = [\<lparr> px = 0, py = 5764607523034220 / 2 ^ 59, pz = 7205759403792784 / 2 ^ 55 \<rparr>] \<and>
   gd_isRunning (step_rnd round_double (bowl_rnd round_double)
       (gd_started\<lparr> gd_learningRate := round_double 0.01,
                     gd_position := \<lparr> xy_x = 0, xy_y = 7205759403792784 / 2 ^ 55 \<rparr> \<rparr>)) \<and>
   step_rnd round_double (bowl_rnd round_double)
       (gd_started\<lparr> gd_learningRate := round_double 0.2,
                     gd_position := \<lparr> xy_x = round_double 0.01, xy_y = 0 \<rparr> \<rparr>)
     = gd_started\<lparr> gd_learningRate := round_double 0.2,
                   gd_position := \<lparr> xy_x = round_double 0.01, xy_y = 0 \<rparr>,
                   gd_isRunning := False \<rparr>"
proof -
  let ?fld = "bowl_rnd round_double"
  let ?s = "gd_started\<lparr> gd_learningRate := round_double 0.01,
                        gd_position := \<lparr> xy_x = 0, xy_y = 7205759403792784 / 2 ^ 55 \<rparr> \<rparr>"
  let ?z = "gd_started\<lparr> gd_learningRate := round_double 0.2,
                        gd_position := \<lparr> xy_x = round_double 0.01, xy_y = 0 \<rparr> \<rparr>"
  have a: "xy_x (gd_position ?s) = 0" "xy_y (gd_position ?s) = 7205759403792784 / 2 ^ 55"
          "gd_learningRate ?s = 5764607523034235 / 2 ^ 59" "gd_path ?s = []"
          "gd_iteration ?s = 0"
    by (simp_all add: gd_started_def gd_init_def double_hundredth del: power_numeral)
  have run: "gd_isRunning ?s" by (simp add: gd_started_def)
  have b: "fn_df_dx ?fld 0 (7205759403792784 / 2 ^ 55) = 0" "fn_df_dy ?fld 0 (7205759403792784 / 2 ^ 55) = 7205759403792784 / 2 ^ 56"
          "fn_f ?fld 0 (7205759403792784 / 2 ^ 55) = 5764607523034220 / 2 ^ 59"
    by (simp_all only: bowl_rnd_def ScalarField.select_convs div_0 mult_zero_left double_zero
          add_0 ball_grad ball_square ball_square_fixed ball_height)
  have c: "round_double (0 - round_double (5764607523034235 / 2 ^ 59 * 0)) = 0"
          "round_double (7205759403792784 / 2 ^ 55 - round_double (5764607523034235 / 2 ^ 59 * (7205759403792784 / 2 ^ 56))) = 7169730606773820 / 2 ^ 55"
    by (simp_all only: mult_zero_right double_zero diff_self ball_scaled ball_next)
  have d: "round_double (sqrt (round_double (round_double ((round_double (0 - 0))\<^sup>2)
             + round_double ((round_double (7169730606773820 / 2 ^ 55 - 7205759403792784 / 2 ^ 55))\<^sup>2)))) = 4611686018427392 / 2 ^ 62"
    by (simp only: diff_self double_zero zero_power2 add_0 ball_diff ball_diff_sq
          ball_diff_sq_fixed ball_dist)
  have acc: "\<not> ((4611686018427392 / 2 ^ 62 :: real) < 4611686018427388 / 2 ^ 62 \<or> (4611686018427392 / 2 ^ 62 :: real) > 10)"
    by simp
  have 1: "gd_position (step_rnd round_double ?fld ?s) = \<lparr> xy_x = 0, xy_y = 7169730606773820 / 2 ^ 55 \<rparr> \<and>
      gd_path (step_rnd round_double ?fld ?s) = [\<lparr> px = 0, py = 5764607523034220 / 2 ^ 59, pz = 7205759403792784 / 2 ^ 55 \<rparr>] \<and>
      gd_isRunning (step_rnd round_double ?fld ?s)"
    using step_candidate_stop_or_accept [where rnd = round_double and s = ?s and fld = ?fld] acc run
    unfolding Let_def a b c d double_thousandth by simp
  have za: "xy_x (gd_position ?z) = 5764607523034235 / 2 ^ 59" "xy_y (gd_position ?z) = 0"
           "gd_learningRate ?z = 7205759403792794 / 2 ^ 55"
    unfolding double_hundredth double_fifth by simp_all
  have zb: "fn_df_dx ?fld (5764607523034235 / 2 ^ 59) 0 = 5764607523034235 / 2 ^ 60" "fn_df_dy ?fld (5764607523034235 / 2 ^ 59) 0 = 0"
    by (simp_all only: bowl_rnd_def ScalarField.select_convs div_0 double_zero edge_grad)
  have zc: "round_double (5764607523034235 / 2 ^ 59 - round_double (7205759403792794 / 2 ^ 55 * (5764607523034235 / 2 ^ 60))) = 5188146770730812 / 2 ^ 59"
           "round_double (0 - round_double (7205759403792794 / 2 ^ 55 * 0)) = 0"
    by (simp_all only: mult_zero_right double_zero diff_self edge_scaled edge_next)
  have zd: "round_double (sqrt (round_double (round_double ((round_double (5188146770730812 / 2 ^ 59 - 5764607523034235 / 2 ^ 59))\<^sup>2)
             + round_double ((round_double (0 - 0))\<^sup>2)))) = 4611686018427384 / 2 ^ 62"
    by (simp only: diff_self double_zero zero_power2 add_0_right edge_diff edge_diff_sq
          edge_diff_sq_fixed edge_dist)
  have stop: "(4611686018427384 / 2 ^ 62 :: real) < 4611686018427388 / 2 ^ 62 \<or> (4611686018427384 / 2 ^ 62 :: real) > 10" by simp
  have 2: "step_rnd round_double ?fld ?z = ?z\<lparr> gd_isRunning := False \<rparr>"
    using step_candidate_stop_or_accept [where rnd = round_double and s = ?z and fld = ?fld] stop
    unfolding Let_def za zb zc zd double_thousandth by simp
  from 1 2 show ?thesis by simp
qed

text \<open>
  In exact arithmetic the displacement of the first of these steps is \<open>\<alpha> * y / 2\<close>, just below
  \<open>1/1000\<close>, and the exact step stops there: at the threshold the rounding decides.
\<close>

lemma step_exact_differs_at_threshold:
  "step bowl (gd_started\<lparr> gd_learningRate := 5764607523034235 / 2 ^ 59,
                            gd_position := \<lparr> xy_x = 0, xy_y = 7205759403792784 / 2 ^ 55 \<rparr> \<rparr>)
     = gd_started\<lparr> gd_learningRate := 5764607523034235 / 2 ^ 59,
                   gd_position := \<lparr> xy_x = 0, xy_y = 7205759403792784 / 2 ^ 55 \<rparr>, gd_isRunning := False \<rparr>"
proof -
  let ?s = "gd_started\<lparr> gd_learningRate := 5764607523034235 / 2 ^ 59,
                        gd_position := \<lparr> xy_x = 0, xy_y = 7205759403792784 / 2 ^ 55 \<rparr> \<rparr>"
  have a: "xy_x (gd_position ?s) = 0" "xy_y (gd_position ?s) = 7205759403792784 / 2 ^ 55" "gd_learningRate ?s = 5764607523034235 / 2 ^ 59"
    by simp_all
  have b: "fn_df_dx bowl 0 (7205759403792784 / 2 ^ 55) = 0" "fn_df_dy bowl 0 (7205759403792784 / 2 ^ 55) = 7205759403792784 / 2 ^ 56"
    by (simp_all add: bowl_def)
  have lt: "sqrt ((0 - 5764607523034235 / 2 ^ 59 * 0 - 0)\<^sup>2 + (7205759403792784 / 2 ^ 55 - 5764607523034235 / 2 ^ 59 * (7205759403792784 / 2 ^ 56) - 7205759403792784 / 2 ^ 55)\<^sup>2) < 0.001"
    by (rule iffD2 [OF sqrt_less_iff_sq]) (simp_all add: power2_eq_square)
  show ?thesis
    using lt unfolding step_def Let_def a b by simp
qed

section \<open>Descent on the bowl from (3, 3)\<close>

lemma step_eq_displacement:
  "step fld s =
    (if stepDisplacement fld s < 0.001 \<or> stepDisplacement fld s > 10
     then s\<lparr> gd_isRunning := False \<rparr>
     else s\<lparr> gd_path := gd_path s @ [\<lparr> px = xy_x (gd_position s), py = currentHeight fld s, pz = xy_y (gd_position s) \<rparr>],
            gd_iteration := gd_iteration s + 1,
            gd_position := \<lparr> xy_x = xy_x (gd_position s) - gd_learningRate s * fn_df_dx fld (xy_x (gd_position s)) (xy_y (gd_position s)),
                             xy_y = xy_y (gd_position s) - gd_learningRate s * fn_df_dy fld (xy_x (gd_position s)) (xy_y (gd_position s)) \<rparr> \<rparr>)"
  by (simp add: step_def stepDisplacement_def currentHeight_def Let_def)

lemma bowl_diag_displacement:
  assumes "gd_learningRate s = 1/10" "gd_position s = \<lparr> xy_x = p, xy_y = p \<rparr>"
  shows "stepDisplacement bowl s = sqrt (p\<^sup>2 / 200)"
proof -
  have e: "(p - 1/10 * (p/2) - p)\<^sup>2 + (p - 1/10 * (p/2) - p)\<^sup>2 = p\<^sup>2 / 200"
    by (simp add: power2_eq_square field_simps)
  have "stepDisplacement bowl s = sqrt ((p - 1/10 * (p/2) - p)\<^sup>2 + (p - 1/10 * (p/2) - p)\<^sup>2)"
    unfolding stepDisplacement_def bowl_def Let_def assms by simp
  then show ?thesis unfolding e .
qed

lemma bowl_diag_small: 
  assumes "gd_learningRate s = 1/10" "gd_position s = \<lparr> xy_x = p, xy_y = p \<rparr>"
  shows "(stepDisplacement bowl s < 0.001) = (p\<^sup>2 < 2 / 10^4)"
proof -
  have "(sqrt (p\<^sup>2 / 200) < 0.001) = (p\<^sup>2 / 200 < (0.001)\<^sup>2)"
    by (rule sqrt_less_iff_sq) simp
  also have "\<dots> = (p\<^sup>2 < 2 / 10^4)" by (simp add: power2_eq_square field_simps)
  finally show ?thesis using bowl_diag_displacement[OF assms] by simp
qed

lemma bowl_diag_large: 
  assumes "gd_learningRate s = 1/10" "gd_position s = \<lparr> xy_x = p, xy_y = p \<rparr>"
  shows "(stepDisplacement bowl s > 10) = (p\<^sup>2 > 20000)"
proof -
  have "(sqrt (p\<^sup>2 / 200) > 10) = (p\<^sup>2 / 200 > 10\<^sup>2)"
    by (rule less_sqrt_iff_sq) simp
  also have "\<dots> = (p\<^sup>2 > 20000)" by (simp add: power2_eq_square field_simps)
  finally show ?thesis using bowl_diag_displacement[OF assms] by simp
qed


lemma step_bowl_diag_accept:
  assumes "gd_learningRate s = 1/10" "gd_position s = \<lparr> xy_x = p, xy_y = p \<rparr>"
      and "2 / 10^4 \<le> p\<^sup>2" "p\<^sup>2 \<le> 20000"
  shows "step bowl s =
     s\<lparr> gd_path := gd_path s @ [\<lparr> px = p, py = currentHeight bowl s, pz = p \<rparr>],
        gd_iteration := gd_iteration s + 1,
        gd_position := \<lparr> xy_x = 19/20 * p, xy_y = 19/20 * p \<rparr> \<rparr>"
proof -
  have "\<not> (stepDisplacement bowl s < 0.001 \<or> stepDisplacement bowl s > 10)"
    using assms(3,4) bowl_diag_small[OF assms(1,2)] bowl_diag_large[OF assms(1,2)] by simp
  moreover have "p - 1/10 * (p/2) = 19/20 * p" by simp
  ultimately show ?thesis
    unfolding step_eq_displacement [of bowl s] using assms(1,2) by (simp add: bowl_def)
qed

lemma step_bowl_diag_stop:
  assumes "gd_learningRate s = 1/10" "gd_position s = \<lparr> xy_x = p, xy_y = p \<rparr>"
      and "p\<^sup>2 < 2 / 10^4"
  shows "step bowl s = s\<lparr> gd_isRunning := False \<rparr>"
  unfolding step_eq_displacement [of bowl s]
  using assms(3) bowl_diag_small[OF assms(1,2)] by simp


lemma bowl_numeric_accept: "(2::real) / 10^4 \<le> 9 * (19/20)^208"
  by (simp add: power_divide)

lemma bowl_numeric_stop: "9 * (19/20)^210 < (2::real) / 10^4"
  by (simp add: power_divide)

lemma bowl_sq_bounds:
  assumes "n \<le> 104"
  shows "(2::real) / 10^4 \<le> (3 * (19/20)^n)\<^sup>2" "(3 * (19/20)^n)\<^sup>2 \<le> (20000::real)"
proof -
  have sq: "(3 * (19/20)^n)\<^sup>2 = (9::real) * (19/20)^(2*n)"
    by (simp add: power_mult_distrib power_mult power2_eq_square mult.commute power_even_eq)
  have "((19::real)/20)^208 \<le> (19/20)^(2*n)"
    by (rule power_decreasing) (use assms in simp_all)
  then show "(2::real) / 10^4 \<le> (3 * (19/20)^n)\<^sup>2"
    using bowl_numeric_accept unfolding sq by linarith
  have "((19::real)/20)^(2*n) \<le> 1" by (rule power_le_one) simp_all
  then show "(3 * (19/20)^n)\<^sup>2 \<le> (20000::real)" unfolding sq by linarith
qed

lemma bowl_trajectory:
  "n \<le> 105 \<Longrightarrow>
     gd_learningRate ((step bowl ^^ n) gd_started) = 1/10 \<and>
     gd_position ((step bowl ^^ n) gd_started) = \<lparr> xy_x = 3 * (19/20)^n, xy_y = 3 * (19/20)^n \<rparr> \<and>
     gd_isRunning ((step bowl ^^ n) gd_started) \<and>
     gd_iteration ((step bowl ^^ n) gd_started) = n"
proof (induction n)
  case 0
  show ?case by (simp add: gd_started_def gd_init_def FUNCTIONS_def bowl_def)
next
  case (Suc n)
  then have n: "n \<le> 104" by simp
  let ?S = "(step bowl ^^ n) gd_started"
  from Suc have ih: "gd_learningRate ?S = 1/10"
      "gd_position ?S = \<lparr> xy_x = 3 * (19/20)^n, xy_y = 3 * (19/20)^n \<rparr>"
      "gd_isRunning ?S" "gd_iteration ?S = n" by simp_all
  have "step bowl ?S = ?S\<lparr> gd_path := gd_path ?S @ [\<lparr> px = 3 * (19/20)^n, py = currentHeight bowl ?S, pz = 3 * (19/20)^n \<rparr>],
        gd_iteration := gd_iteration ?S + 1,
        gd_position := \<lparr> xy_x = 19/20 * (3 * (19/20)^n), xy_y = 19/20 * (3 * (19/20)^n) \<rparr> \<rparr>"
    by (rule step_bowl_diag_accept [OF ih(1,2) bowl_sq_bounds [OF n]])
  then show ?case using ih by simp
qed

lemma bowl_last_call:
  "step bowl ((step bowl ^^ 105) gd_started) = ((step bowl ^^ 105) gd_started)\<lparr> gd_isRunning := False \<rparr>"
proof -
  let ?S = "(step bowl ^^ 105) gd_started"
  have t: "gd_learningRate ?S = 1/10"
      "gd_position ?S = \<lparr> xy_x = 3 * (19/20)^105, xy_y = 3 * (19/20)^105 \<rparr>"
    using bowl_trajectory [of 105] by simp_all
  have sq: "(3 * (19/20)^105)\<^sup>2 = (9::real) * (19/20)^210"
    by (simp add: power_mult_distrib power_mult power2_eq_square mult.commute power_even_eq)
  show ?thesis
    by (rule step_bowl_diag_stop [OF t]) (use bowl_numeric_stop sq in simp)
qed


lemma bowl_after_stop:
  "\<not> gd_isRunning ((step bowl ^^ (106 + k)) gd_started)"
proof -
  let ?S = "(step bowl ^^ 105) gd_started"
  let ?T = "?S\<lparr> gd_isRunning := False \<rparr>"
  have t: "gd_learningRate ?T = 1/10"
      "gd_position ?T = \<lparr> xy_x = 3 * (19/20)^105, xy_y = 3 * (19/20)^105 \<rparr>"
    using bowl_trajectory [of 105] by simp_all
  have sq: "(3 * (19/20)^105)\<^sup>2 = (9::real) * (19/20)^210"
    by (simp add: power_mult_distrib power_mult power2_eq_square mult.commute power_even_eq)
  have fixed: "step bowl ?T = ?T"
    using step_bowl_diag_stop [OF t] bowl_numeric_stop sq by simp
  have "(step bowl ^^ (106 + k)) gd_started = ?T"
  proof (induction k)
    case 0
    have "(step bowl ^^ 106) gd_started = step bowl ?S"
      by (simp add: numeral_eq_Suc)
    then show ?case using bowl_last_call by simp
  next
    case (Suc k)
    have "(step bowl ^^ (106 + Suc k)) gd_started = step bowl ((step bowl ^^ (106 + k)) gd_started)"
      by (simp only: add_Suc_right funpow.simps o_apply)
    then show ?case using fixed Suc by (simp only:)
  qed
  then show ?thesis by simp
qed

lemma bowl_running_bound:
  assumes "gd_isRunning ((step bowl ^^ n) gd_started)"
  shows "n \<le> 105"
proof (rule ccontr)
  assume "\<not> n \<le> 105"
  then have "106 \<le> n" by simp
  then obtain k where "n = 106 + k" using le_Suc_ex by blast
  then show False using assms bowl_after_stop by simp
qed

lemma runInterval_bowl_unroll:
  "n \<le> 105 \<Longrightarrow> runInterval bowl gd_started = runInterval bowl ((step bowl ^^ n) gd_started)"
proof (induction n)
  case 0
  show ?case by simp
next
  case (Suc n)
  then have "gd_isRunning ((step bowl ^^ n) gd_started)" using bowl_trajectory [of n] by simp
  then have "runInterval bowl ((step bowl ^^ n) gd_started)
      = runInterval bowl ((step bowl ^^ Suc n) gd_started)"
    by (subst runInterval.simps) simp
  then show ?case using Suc by simp
qed

lemma runInterval_bowl_result:
  "runInterval bowl gd_started = Some (((step bowl ^^ 105) gd_started)\<lparr> gd_isRunning := False \<rparr>)"
proof -
  let ?S = "(step bowl ^^ 105) gd_started"
  have "runInterval bowl gd_started = runInterval bowl ?S"
    by (rule runInterval_bowl_unroll) simp
  also have "\<dots> = runInterval bowl (step bowl ?S)"
    using bowl_trajectory [of 105] by (subst runInterval.simps) simp
  also have "\<dots> = Some (?S\<lparr> gd_isRunning := False \<rparr>)"
    unfolding bowl_last_call by (subst runInterval.simps) simp
  finally show ?thesis .
qed


lemma bowl_diag_step_props:
  assumes lr: "gd_learningRate s = 1/10" and pos: "gd_position s = \<lparr> xy_x = p, xy_y = p \<rparr>"
      and p: "0 < p" "p\<^sup>2 \<le> 20000" and run: "gd_isRunning s"
  shows "\<not> (stepDisplacement bowl s < 0.001 \<or> stepDisplacement bowl s > 10)
           \<Longrightarrow> currentHeight bowl (step bowl s) < currentHeight bowl s"
    and "gd_isRunning (step bowl s) = (\<not> stepDisplacement bowl s < 0.001)"
proof -
  have nl: "\<not> stepDisplacement bowl s > 10"
    using bowl_diag_large [OF lr pos] p(2) by simp
  show "gd_isRunning (step bowl s) = (\<not> stepDisplacement bowl s < 0.001)"
    unfolding step_eq_displacement [of bowl s] using nl run by simp
  assume acc: "\<not> (stepDisplacement bowl s < 0.001 \<or> stepDisplacement bowl s > 10)"
  have h0: "currentHeight bowl s = p * p / 2"
    using pos by (simp add: currentHeight_def bowl_def)
  have "gd_position (step bowl s) = \<lparr> xy_x = p - 1/10 * (p/2), xy_y = p - 1/10 * (p/2) \<rparr>"
    unfolding step_eq_displacement [of bowl s] using acc lr pos by (simp add: bowl_def)
  then have h1: "currentHeight bowl (step bowl s) = (361/400) * (p * p / 2)"
    by (simp add: currentHeight_def bowl_def field_simps)
  have "0 < p * p / 2" using p(1) by simp
  then show "currentHeight bowl (step bowl s) < currentHeight bowl s"
    unfolding h0 h1 by linarith
qed

text \<open>
  C2. On the bowl \<open>f x y = (x\<^sup>2 + y\<^sup>2) / 4\<close> with partials \<open>x / 2\<close> and \<open>y / 2\<close>, started
  at \<open>(3, 3)\<close> with learning rate \<open>0.1\<close>: at every state in which the interval calls
  \<open>step\<close> (a running state reached by \<open>n\<close> earlier calls), an accepted step strictly
  lowers the value of \<open>f\<close> at the position, and the call switches running off exactly
  when the displacement is below \<open>0.001\<close> (the divergence bound never triggers). The
  run does halt: the interval loop returns a state that is no longer running, whose
  displacement is below the threshold, after 105 accepted steps.
\<close>

theorem bowl_descent_decreases_until_threshold:
  "(\<forall>n. gd_isRunning ((step bowl ^^ n) gd_started) \<longrightarrow>
      (\<not> (stepDisplacement bowl ((step bowl ^^ n) gd_started) < 0.001 \<or>
          stepDisplacement bowl ((step bowl ^^ n) gd_started) > 10) \<longrightarrow>
         currentHeight bowl (step bowl ((step bowl ^^ n) gd_started))
           < currentHeight bowl ((step bowl ^^ n) gd_started)) \<and>
      gd_isRunning (step bowl ((step bowl ^^ n) gd_started))
        = (\<not> stepDisplacement bowl ((step bowl ^^ n) gd_started) < 0.001)) \<and>
   (\<exists>s'. runInterval bowl gd_started = Some s' \<and> \<not> gd_isRunning s' \<and>
         stepDisplacement bowl s' < 0.001 \<and> gd_iteration s' = 105)"
proof (intro conjI allI impI)
  fix n
  let ?S = "(step bowl ^^ n) gd_started"
  assume run: "gd_isRunning ?S"
  then have n: "n \<le> 105" by (rule bowl_running_bound)
  have t: "gd_learningRate ?S = 1/10"
      "gd_position ?S = \<lparr> xy_x = 3 * (19/20)^n, xy_y = 3 * (19/20)^n \<rparr>"
    using bowl_trajectory [OF n] by simp_all
  have pos: "(0::real) < 3 * (19/20)^n" by simp
  have "((19::real)/20)^(2*n) \<le> 1" by (rule power_le_one) simp_all
  moreover have "(3 * (19/20)^n)\<^sup>2 = (9::real) * (19/20)^(2*n)"
    by (simp add: power_mult_distrib power_mult power2_eq_square mult.commute power_even_eq)
  ultimately have le: "(3 * (19/20)^n)\<^sup>2 \<le> (20000::real)" by linarith
  show "gd_isRunning (step bowl ?S) = (\<not> stepDisplacement bowl ?S < 0.001)"
    by (rule bowl_diag_step_props(2) [OF t pos le run])
  assume "\<not> (stepDisplacement bowl ?S < 0.001 \<or> stepDisplacement bowl ?S > 10)"
  then show "currentHeight bowl (step bowl ?S) < currentHeight bowl ?S"
    by (rule bowl_diag_step_props(1) [OF t pos le run])
next
  let ?S = "(step bowl ^^ 105) gd_started"
  have t: "gd_learningRate (?S\<lparr> gd_isRunning := False \<rparr>) = 1/10"
      "gd_position (?S\<lparr> gd_isRunning := False \<rparr>) = \<lparr> xy_x = 3 * (19/20)^105, xy_y = 3 * (19/20)^105 \<rparr>"
      "gd_iteration (?S\<lparr> gd_isRunning := False \<rparr>) = 105"
    using bowl_trajectory [of 105] by simp_all
  have sq: "(3 * (19/20)^105)\<^sup>2 = (9::real) * (19/20)^210"
    by (simp add: power_mult_distrib power_mult power2_eq_square mult.commute power_even_eq)
  have "stepDisplacement bowl (?S\<lparr> gd_isRunning := False \<rparr>) < 0.001"
    using bowl_diag_small [OF t(1,2)] bowl_numeric_stop sq by simp
  then show "\<exists>s'. runInterval bowl gd_started = Some s' \<and> \<not> gd_isRunning s' \<and>
         stepDisplacement bowl s' < 0.001 \<and> gd_iteration s' = 105"
    using runInterval_bowl_result t(3) by simp
qed

theorem bowl_descent_first_step_witness:
  "gd_isRunning gd_started \<and>
   currentHeight bowl (step bowl gd_started) < currentHeight bowl gd_started \<and>
   gd_isRunning (step bowl gd_started) \<and>
   \<not> stepDisplacement bowl gd_started < 0.001 \<and>
   (\<exists>s'. runInterval bowl gd_started = Some s' \<and> \<not> gd_isRunning s')"
proof -
  have run: "gd_isRunning ((step bowl ^^ 0) gd_started)"
    by (simp add: gd_started_def)
  have d: "stepDisplacement bowl gd_started = sqrt (9 / 200)"
    by (simp add: stepDisplacement_def gd_started_def gd_init_def FUNCTIONS_def bowl_def
        Let_def power2_eq_square)
  have acc: "\<not> (sqrt (9 / 200) < 0.001 \<or> sqrt (9 / 200) > 10)"
    by (rule sqrt_between) (simp_all add: power2_eq_square)
  from bowl_descent_decreases_until_threshold
  have all: "\<forall>n. gd_isRunning ((step bowl ^^ n) gd_started) \<longrightarrow>
      (\<not> (stepDisplacement bowl ((step bowl ^^ n) gd_started) < 0.001 \<or>
          stepDisplacement bowl ((step bowl ^^ n) gd_started) > 10) \<longrightarrow>
         currentHeight bowl (step bowl ((step bowl ^^ n) gd_started))
           < currentHeight bowl ((step bowl ^^ n) gd_started)) \<and>
      gd_isRunning (step bowl ((step bowl ^^ n) gd_started))
        = (\<not> stepDisplacement bowl ((step bowl ^^ n) gd_started) < 0.001)"
    and halt: "\<exists>s'. runInterval bowl gd_started = Some s' \<and> \<not> gd_isRunning s' \<and>
         stepDisplacement bowl s' < 0.001 \<and> gd_iteration s' = 105"
    by blast+
  from all [rule_format, of 0] run d acc
  have "currentHeight bowl (step bowl gd_started) < currentHeight bowl gd_started"
    and "gd_isRunning (step bowl gd_started) = (\<not> stepDisplacement bowl gd_started < 0.001)"
    by simp_all
  with run d acc halt show ?thesis by auto
qed

section \<open>The eigen-alignment classification\<close>

lemma foldl_flag:
  "foldl (\<lambda>flag item. if P item then True else flag) b items = (b \<or> (\<exists>item \<in> set items. P item))"
  by (induction items arbitrary: b) simp_all

lemma double_tenth: "round_double 0.1 = 7205759403792794 / 2 ^ 56"
proof -
  have "round_double 0.1 = of_int 7205759403792794 / 2 ^ 56"
    by (rule round_double_cert) (simp_all add: round_half_even_def)
  then show ?thesis by simp
qed

lemma double_sixteenth:
  "round_double (1 / 16) = 1 / 16" "round_double (- (1 / 16)) = - (1 / 16)"
proof -
  have "round_double (1 / 16) = of_int 4503599627370496 / 2 ^ 56"
    by (rule round_double_cert) (simp_all add: round_half_even_def)
  then show "round_double (1 / 16) = 1 / 16" by simp
  have "round_double (- (1 / 16)) = of_int (- 4503599627370496) / 2 ^ 56"
    by (rule round_double_cert) (simp_all add: round_half_even_def)
  then show "round_double (- (1 / 16)) = - (1 / 16)" by simp
qed

text \<open>
  C5. For every probe vector, every list of candidate eigen-direction lines and every
  rounding of the arithmetic, the probe is classified aligned if and only if some
  candidate line has \<open>|probe.x * line.y - probe.y * line.x| < 0.1\<close>, the cross product
  and the literal taken as the code computes them. The test is a tolerance: in double
  arithmetic the probe \<open>(1, 0.0625)\<close> does not lie on the line of direction \<open>(1, 0)\<close>
  (the cross product is not zero) and is classified aligned.
\<close>

theorem isAligned_iff_some_line_within_tolerance:
  "isAligned rnd probe eigenLines
     = (\<exists>line \<in> set eigenLines.
          \<bar>rnd (rnd (v2_x probe * v2_y line) - rnd (v2_y probe * v2_x line))\<bar> < rnd 0.1)
   \<and> (isAligned round_double \<lparr> v2_x = 1, v2_y = 1 / 16 \<rparr> [\<lparr> v2_x = 1, v2_y = 0 \<rparr>]
      \<and> (1::real) * 0 - 1 / 16 * 1 \<noteq> 0)"
proof -
  have gen: "isAligned rnd probe eigenLines
     = (\<exists>line \<in> set eigenLines.
          \<bar>rnd (rnd (v2_x probe * v2_y line) - rnd (v2_y probe * v2_x line))\<bar> < rnd 0.1)"
    for rnd probe eigenLines
    unfolding isAligned_def Let_def
    using foldl_flag [of "\<lambda>line. \<bar>rnd (rnd (v2_x probe * v2_y line) - rnd (v2_y probe * v2_x line))\<bar> < rnd 0.1"
        False eigenLines]
    by (simp only: simp_thms)
  have "isAligned round_double \<lparr> v2_x = 1, v2_y = 1 / 16 \<rparr> [\<lparr> v2_x = 1, v2_y = 0 \<rparr>]"
    unfolding gen by (simp add: double_zero double_sixteenth double_tenth)
  with gen show ?thesis by simp
qed

text \<open>
  At the tolerance the rounding decides. The probe \<open>(0.125, 0.025)\<close> (the second
  component the double nearest to \<open>1/40\<close>) with the lines \<open>(1, 1)\<close> and \<open>(-1, 1)\<close> of the
  preset \<open>DIAGONAL\<close>: the difference \<open>0.125 - 0.025\<close> lies halfway between two doubles
  and rounds to the double \<open>0.1\<close> itself, which is not below \<open>0.1\<close>, so the program
  classifies the probe as not aligned; the exact difference is below \<open>1/10\<close>.
\<close>

lemma double_fortieth: "round_double (1 / 40) = 7205759403792794 / 2 ^ 58"
proof -
  have "round_double (1 / 40) = of_int 7205759403792794 / 2 ^ 58"
    by (rule round_double_cert) (simp_all add: round_half_even_def)
  then show ?thesis by simp
qed

lemma double_eighth: "round_double (1 / 8) = 1 / 8"
proof -
  have "round_double (1 / 8) = of_int 4503599627370496 / 2 ^ 55"
    by (rule round_double_cert) (simp_all add: round_half_even_def)
  then show ?thesis by simp
qed

lemma double_probe_diag_1:
  "round_double (1 / 8 - 7205759403792794 / 2 ^ 58) = 7205759403792794 / 2 ^ 56"
proof -
  have "round_double (1 / 8 - 7205759403792794 / 2 ^ 58) = of_int 7205759403792794 / 2 ^ 56"
    by (rule round_double_cert) (simp_all add: round_half_even_def)
  then show ?thesis by simp
qed

lemma double_probe_diag_2:
  "round_double (1 / 8 + 7205759403792794 / 2 ^ 58) = 5404319552844595 / 2 ^ 55"
proof -
  have "round_double (1 / 8 + 7205759403792794 / 2 ^ 58) = of_int 5404319552844595 / 2 ^ 55"
    by (rule round_double_cert) (simp_all add: round_half_even_def)
  then show ?thesis by simp
qed

lemma double_fortieth_fixed:
  "round_double (7205759403792794 / 2 ^ 58) = 7205759403792794 / 2 ^ 58"
  "round_double (- (7205759403792794 / 2 ^ 58)) = - (7205759403792794 / 2 ^ 58)"
proof -
  have "round_double (7205759403792794 / 2 ^ 58) = of_int 7205759403792794 / 2 ^ 58"
    by (rule round_double_cert) (simp_all add: round_half_even_def)
  then show "round_double (7205759403792794 / 2 ^ 58) = 7205759403792794 / 2 ^ 58" by simp
  have "round_double (- (7205759403792794 / 2 ^ 58)) = of_int (- 7205759403792794) / 2 ^ 58"
    by (rule round_double_cert) (simp_all add: round_half_even_def)
  then show "round_double (- (7205759403792794 / 2 ^ 58)) = - (7205759403792794 / 2 ^ 58)" by simp
qed

theorem isAligned_iff_some_line_within_tolerance_witness:
  "\<not> isAligned round_double \<lparr> v2_x = 1 / 8, v2_y = round_double (1 / 40) \<rparr>
        [\<lparr> v2_x = 1, v2_y = 1 \<rparr>, \<lparr> v2_x = - 1, v2_y = 1 \<rparr>] \<and>
   isAligned (\<lambda>v. v) \<lparr> v2_x = 1 / 8, v2_y = round_double (1 / 40) \<rparr>
        [\<lparr> v2_x = 1, v2_y = 1 \<rparr>, \<lparr> v2_x = - 1, v2_y = 1 \<rparr>]"
proof -
  let ?y = "7205759403792794 / 2 ^ 58 :: real"
  let ?probe = "\<lparr> v2_x = 1 / 8, v2_y = ?y \<rparr>"
  let ?lines = "[\<lparr> v2_x = 1, v2_y = 1 \<rparr>, \<lparr> v2_x = - 1, v2_y = 1 \<rparr>]"
  have c1: "round_double (round_double (1 / 8) - round_double ?y) = 7205759403792794 / 2 ^ 56"
    by (simp only: double_eighth double_fortieth_fixed double_probe_diag_1)
  have c2: "round_double (round_double (1 / 8) - round_double (- ?y)) = 5404319552844595 / 2 ^ 55"
    by (simp only: double_eighth double_fortieth_fixed diff_minus_eq_add double_probe_diag_2)
  have n: "\<not> (5404319552844595 / 2 ^ 55 :: real) < 7205759403792794 / 2 ^ 56" by simp
  have a: "\<not> isAligned round_double ?probe ?lines"
    unfolding isAligned_iff_some_line_within_tolerance
                [where rnd = round_double and probe = ?probe and eigenLines = ?lines, THEN conjunct1]
    by (simp add: c1 c2 double_tenth n del: power_numeral)
  have b: "isAligned (\<lambda>v. v) ?probe ?lines"
    unfolding isAligned_iff_some_line_within_tolerance
                [where rnd = "\<lambda>v. v" and probe = ?probe and eigenLines = ?lines, THEN conjunct1]
    by simp
  from a b show ?thesis unfolding double_fortieth by simp
qed

section \<open>The camera projection\<close>

text \<open>
  C6. In 3D mode the point is first rotated by the yaw about the vertical axis, the
  result by the pitch about the horizontal axis, and the screen point is
  \<open>x = width / 2 + pan.x + rotated.x * scale\<close>, \<open>y = height / 2 + pan.y - rotated.y * scale\<close>
  with the rotated \<open>z\<close> as depth. In 2D mode no rotation is applied and \<open>z\<close> is forced
  to 0. A vector with \<open>z = 0\<close> therefore has the same projection in both modes when
  pitch and yaw are 0.
\<close>

theorem project_yaw_then_pitch_and_flat_mode:
  "(vp_is3D view \<longrightarrow>
      (let yaw = xy_y (vp_cameraAngle view); pitch = xy_x (vp_cameraAngle view);
           r1 = \<lparr> v3_x = v3_x v * cos yaw + v3_z v * sin yaw, v3_y = v3_y v,
                  v3_z = - v3_x v * sin yaw + v3_z v * cos yaw \<rparr>;
           r2 = \<lparr> v3_x = v3_x r1, v3_y = v3_y r1 * cos pitch - v3_z r1 * sin pitch,
                  v3_z = v3_y r1 * sin pitch + v3_z r1 * cos pitch \<rparr>
       in r1 = rotateY v yaw \<and> r2 = rotateX r1 pitch \<and>
          project view v width height =
            \<lparr> v3_x = width / 2 + xy_x (vp_pan view) + v3_x r2 * vp_scale view,
              v3_y = height / 2 + xy_y (vp_pan view) - v3_y r2 * vp_scale view,
              v3_z = v3_z r2 \<rparr>)) \<and>
   (\<not> vp_is3D view \<longrightarrow>
      project view v width height =
        \<lparr> v3_x = width / 2 + xy_x (vp_pan view) + v3_x v * vp_scale view,
          v3_y = height / 2 + xy_y (vp_pan view) - v3_y v * vp_scale view,
          v3_z = 0 \<rparr>) \<and>
   (v3_z v = 0 \<and> vp_cameraAngle view = \<lparr> xy_x = 0, xy_y = 0 \<rparr> \<longrightarrow>
      project (view\<lparr> vp_is3D := True \<rparr>) v width height
        = project (view\<lparr> vp_is3D := False \<rparr>) v width height)"
  by (simp add: project_def rotateX_def rotateY_def Let_def)

theorem project_yaw_then_pitch_and_flat_mode_witness:
  "project \<lparr> vp_is3D = True, vp_cameraAngle = \<lparr> xy_x = 0, xy_y = 0 \<rparr>, vp_scale = 40,
             vp_pan = \<lparr> xy_x = 0, xy_y = 0 \<rparr> \<rparr> \<lparr> v3_x = 4, v3_y = 1, v3_z = 0 \<rparr> 800 600
     = \<lparr> v3_x = 560, v3_y = 260, v3_z = 0 \<rparr> \<and>
   project \<lparr> vp_is3D = False, vp_cameraAngle = \<lparr> xy_x = 0, xy_y = 0 \<rparr>, vp_scale = 40,
             vp_pan = \<lparr> xy_x = 0, xy_y = 0 \<rparr> \<rparr> \<lparr> v3_x = 4, v3_y = 1, v3_z = 0 \<rparr> 800 600
     = \<lparr> v3_x = 560, v3_y = 260, v3_z = 0 \<rparr> \<and>
   project \<lparr> vp_is3D = True, vp_cameraAngle = \<lparr> xy_x = 0, xy_y = 0 \<rparr>, vp_scale = 40,
             vp_pan = \<lparr> xy_x = 0, xy_y = 0 \<rparr> \<rparr> \<lparr> v3_x = 4, v3_y = 1, v3_z = 0 \<rparr> 800 600
     = project \<lparr> vp_is3D = False, vp_cameraAngle = \<lparr> xy_x = 0, xy_y = 0 \<rparr>, vp_scale = 40,
             vp_pan = \<lparr> xy_x = 0, xy_y = 0 \<rparr> \<rparr> \<lparr> v3_x = 4, v3_y = 1, v3_z = 0 \<rparr> 800 600"
proof -
  let ?c3 = "\<lparr> vp_is3D = True, vp_cameraAngle = \<lparr> xy_x = 0, xy_y = 0 \<rparr>, vp_scale = 40,
             vp_pan = \<lparr> xy_x = 0, xy_y = 0 \<rparr> \<rparr>"
  let ?c2 = "\<lparr> vp_is3D = False, vp_cameraAngle = \<lparr> xy_x = 0, xy_y = 0 \<rparr>, vp_scale = 40,
             vp_pan = \<lparr> xy_x = 0, xy_y = 0 \<rparr> \<rparr>"
  let ?v = "\<lparr> v3_x = 4, v3_y = 1, v3_z = 0 \<rparr> :: real Vector3"
  note t3 = project_yaw_then_pitch_and_flat_mode [of ?c3 ?v 800 600]
  note t2 = project_yaw_then_pitch_and_flat_mode [of ?c2 ?v 800 600]
  have a: "project ?c3 ?v 800 600 = \<lparr> v3_x = 560, v3_y = 260, v3_z = 0 \<rparr>"
    using t3 [THEN conjunct1] by (simp add: Let_def)
  have b: "project ?c2 ?v 800 600 = \<lparr> v3_x = 560, v3_y = 260, v3_z = 0 \<rparr>"
    using t2 [THEN conjunct2, THEN conjunct1] by simp
  have c: "project ?c3 ?v 800 600 = project ?c2 ?v 800 600"
    using t2 [THEN conjunct2, THEN conjunct2] by simp
  from a b c show ?thesis by (simp only: simp_thms)
qed

section \<open>The render list: order of painting\<close>




lemma runDraws_append:
  "runDraws (xs @ ys) c = (case runDraws xs c of Inl e \<Rightarrow> Inl e | Inr c' \<Rightarrow> runDraws ys c')"
  by (induction xs arbitrary: c) (simp_all split: sum.splits)







section \<open>The render list: a paint callback that throws\<close>

text \<open>
  C8, as the specification states it: when one paint callback of the frame throws, the
  failing command is skipped and every remaining callback is still executed. The code
  has no \<open>try\<close> around \<open>item.draw()\<close>: in the frame below the far item throws, the
  exception leaves the draw pass and the near item is never painted (the canvas holds
  no stroke), where the stated behaviour would have painted \<open>''grid''\<close>.
\<close>

theorem throwing_paint_aborts_frame_counterexample:
  "sortAndDraw [\<lparr> ri_type = LINE, ri_z = 1, ri_draw = paintStroke ''grid'' \<rparr>,
                \<lparr> ri_type = FACE, ri_z = 2, ri_draw = paintThrows ''TypeError'' \<rparr>] []
     = Inl (''TypeError'', []) \<and>
   sortAndDraw [\<lparr> ri_type = LINE, ri_z = 1, ri_draw = paintStroke ''grid'' \<rparr>] []
     = Inr [''grid'']"
  by (simp add: sortAndDraw_def sortRenderList_def paintStroke_def paintThrows_def)

text \<open>
  C8, amended. The draw pass runs the sorted callbacks in order and stops at the first
  one that throws: the callbacks before it have been executed, the failing one and
  every later one are not, and the exception (with the canvas as the callbacks before
  it left it) leaves the pass. When no callback of the list throws, all of them are
  executed and the pass returns normally.
\<close>

theorem runDraws_stops_at_first_throw:
  "(runDraws before c = Inr c' \<and> ri_draw item c' = Inl e \<longrightarrow>
      runDraws (before @ item # rest) c = Inl e) \<and>
   (runDraws before c = Inr c' \<longrightarrow> runDraws (before @ rest) c = runDraws rest c') \<and>
   ((\<forall>item \<in> set items. \<forall>c. \<exists>c'. ri_draw item c = Inr c') \<longrightarrow> (\<exists>c'. runDraws items c = Inr c')) \<and>
   sortAndDraw items c = runDraws (sortRenderList items) c"
proof (intro conjI impI)
  assume "runDraws before c = Inr c' \<and> ri_draw item c' = Inl e"
  then show "runDraws (before @ item # rest) c = Inl e"
    by (simp add: runDraws_append)
next
  assume "runDraws before c = Inr c'"
  then show "runDraws (before @ rest) c = runDraws rest c'"
    by (simp add: runDraws_append)
next
  assume "\<forall>item \<in> set items. \<forall>c. \<exists>c'. ri_draw item c = Inr c'"
  then show "\<exists>c'. runDraws items c = Inr c'"
  proof (induction items arbitrary: c)
    case Nil
    show ?case by simp
  next
    case (Cons it items)
    then obtain c1 where "ri_draw it c = Inr c1" by (meson list.set_intros(1))
    moreover have "\<exists>c'. runDraws items c1 = Inr c'" using Cons by simp
    ultimately show ?case by simp
  qed
next
  show "sortAndDraw items c = runDraws (sortRenderList items) c" by (simp add: sortAndDraw_def)
qed

theorem runDraws_stops_at_first_throw_witness:
  "runDraws ([\<lparr> ri_type = LINE, ri_z = 3, ri_draw = paintStroke ''far'' \<rparr>]
             @ \<lparr> ri_type = FACE, ri_z = 2, ri_draw = paintThrows ''TypeError'' \<rparr>
             # [\<lparr> ri_type = ARROW, ri_z = 1, ri_draw = paintStroke ''near'' \<rparr>]) []
     = Inl (''TypeError'', [''far'']) \<and>
   (\<exists>c'. runDraws [\<lparr> ri_type = LINE, ri_z = 3, ri_draw = paintStroke ''far'' \<rparr>,
                    \<lparr> ri_type = ARROW, ri_z = 1, ri_draw = paintStroke ''near'' \<rparr>] [] = Inr c')"
proof -
  let ?far = "\<lparr> ri_type = LINE, ri_z = 3, ri_draw = paintStroke ''far'' \<rparr>"
  let ?bad = "\<lparr> ri_type = FACE, ri_z = 2, ri_draw = paintThrows ''TypeError'' \<rparr>"
  let ?near = "\<lparr> ri_type = ARROW, ri_z = 1, ri_draw = paintStroke ''near'' \<rparr>"
  have pre: "runDraws [?far] [] = Inr [''far''] \<and> ri_draw ?bad [''far''] = Inl (''TypeError'', [''far''])"
    by (simp add: paintStroke_def paintThrows_def)
  have ok: "\<forall>item \<in> set [?far, ?near]. \<forall>c. \<exists>c'. ri_draw item c = Inr c'"
    by (simp add: paintStroke_def)
  note t1 = runDraws_stops_at_first_throw
    [where before = "[?far]" and c = "[]" and c' = "[''far'']" and item = ?bad
       and e = "(''TypeError'', [''far''])" and rest = "[?near]"]
  note t2 = runDraws_stops_at_first_throw [where items = "[?far, ?near]" and c = "[]"]
  from t1 pre have a: "runDraws ([?far] @ ?bad # [?near]) [] = Inl (''TypeError'', [''far''])"
    by blast
  from t2 ok have b: "\<exists>c'. runDraws [?far, ?near] [] = Inr c'" by blast
  from a b show ?thesis by blast
qed

section \<open>Unparseable text in a numeric field\<close>

lemma parseFloat_examples:
  "parseFloat '''' = NaN" "parseFloat ''abc'' = NaN" "parseFloat ''-'' = NaN"
  "parseFloat ''2.5'' = Num (5 / 2)" "parseFloat '' -1.5e2x'' = Num (- 150)"
  "parseFloat ''.5'' = Num (1 / 2)" "parseFloat ''-Infinity'' = NegInfinity"
  by (simp_all add: parseFloat_def takeSign_def isStrWhiteSpace_def digitValue_def
      digitsValue_def parseExponent_def power_int_def)

text \<open>
  C9, as the specification states it: in every numeric text field unparseable text
  leaves the last good value in place and the model is replaced neither by 0 nor by
  NaN. In the vector column of VectorPlayground the empty text (what a number input
  delivers for invalid content) replaces the component 4 of \<open>A = (4, 1, 0)\<close> by 0, and
  so does the column of DotProductLevel on \<open>A = (3, 2, 0)\<close>.
\<close>

theorem unparseable_vector_field_becomes_zero_counterexample:
  "handleChange True \<lparr> v3_x = Num 4, v3_y = Num 1, v3_z = Num 0 \<rparr> AxisX ''''
     = Some \<lparr> v3_x = Num 0, v3_y = Num 1, v3_z = Num 0 \<rparr> \<and>
   handleChange True \<lparr> v3_x = Num 4, v3_y = Num 1, v3_z = Num 0 \<rparr> AxisX ''''
     \<noteq> Some \<lparr> v3_x = Num 4, v3_y = Num 1, v3_z = Num 0 \<rparr> \<and>
   dp_handleChange \<lparr> v3_x = Num 3, v3_y = Num 2, v3_z = Num 0 \<rparr> AxisX ''''
     = \<lparr> v3_x = Num 0, v3_y = Num 2, v3_z = Num 0 \<rparr>"
  by (simp add: handleChange_def dp_handleChange_def orZero_def parseFloat_examples)

text \<open>
  C9, amended. When the entered text is unparseable (\<open>parseFloat\<close> gives NaN): the
  matrix field of MatrixTransform keeps the last value, the matrix is not changed;
  the vector component fields of VectorPlayground and DotProductLevel set the edited
  component to 0 and keep the other components. In neither case does NaN reach the
  model.
\<close>

theorem unparseable_text_keeps_matrix_and_zeroes_vector:
  "parseFloat val = NaN \<longrightarrow>
     updateMatrix key val matrix = matrix \<and>
     handleChange True vec axis val = Some (setAxis axis (Num 0) vec) \<and>
     dp_handleChange vec axis val = setAxis axis (Num 0) vec \<and>
     (case axis of AxisX \<Rightarrow> v3_x | AxisY \<Rightarrow> v3_y | AxisZ \<Rightarrow> v3_z)
        (dp_handleChange vec axis val) \<noteq> NaN"
  by (cases axis) (simp_all add: updateMatrix_def handleChange_def dp_handleChange_def
      isNaN_def orZero_def)

theorem unparseable_text_keeps_matrix_and_zeroes_vector_witness:
  "parseFloat ''abc'' = NaN \<and>
   updateMatrix KeyB ''abc'' \<lparr> m2_a = Num 1, m2_b = Num 0, m2_c = Num 0, m2_d = Num 1 \<rparr>
     = \<lparr> m2_a = Num 1, m2_b = Num 0, m2_c = Num 0, m2_d = Num 1 \<rparr> \<and>
   handleChange True \<lparr> v3_x = Num 4, v3_y = Num 1, v3_z = Num 0 \<rparr> AxisY ''abc''
     = Some \<lparr> v3_x = Num 4, v3_y = Num 0, v3_z = Num 0 \<rparr> \<and>
   dp_handleChange \<lparr> v3_x = Num 3, v3_y = Num 2, v3_z = Num 0 \<rparr> AxisY ''abc''
     = \<lparr> v3_x = Num 3, v3_y = Num 0, v3_z = Num 0 \<rparr>"
proof -
  have nan: "parseFloat ''abc'' = NaN" by (rule parseFloat_examples)
  note t1 = unparseable_text_keeps_matrix_and_zeroes_vector
    [where val = "''abc''" and key = KeyB
       and matrix = "\<lparr> m2_a = Num 1, m2_b = Num 0, m2_c = Num 0, m2_d = Num 1 \<rparr>"
       and vec = "\<lparr> v3_x = Num 4, v3_y = Num 1, v3_z = Num 0 \<rparr>" and axis = AxisY]
  note t2 = unparseable_text_keeps_matrix_and_zeroes_vector
    [where val = "''abc''" and key = KeyB
       and matrix = "\<lparr> m2_a = Num 1, m2_b = Num 0, m2_c = Num 0, m2_d = Num 1 \<rparr>"
       and vec = "\<lparr> v3_x = Num 3, v3_y = Num 2, v3_z = Num 0 \<rparr>" and axis = AxisY]
  have a: "updateMatrix KeyB ''abc'' \<lparr> m2_a = Num 1, m2_b = Num 0, m2_c = Num 0, m2_d = Num 1 \<rparr>
     = \<lparr> m2_a = Num 1, m2_b = Num 0, m2_c = Num 0, m2_d = Num 1 \<rparr>"
    using t1 nan by blast
  have b: "handleChange True \<lparr> v3_x = Num 4, v3_y = Num 1, v3_z = Num 0 \<rparr> AxisY ''abc''
     = Some \<lparr> v3_x = Num 4, v3_y = Num 0, v3_z = Num 0 \<rparr>"
    using t1 nan by simp
  have c: "dp_handleChange \<lparr> v3_x = Num 3, v3_y = Num 2, v3_z = Num 0 \<rparr> AxisY ''abc''
     = \<lparr> v3_x = Num 3, v3_y = Num 0, v3_z = Num 0 \<rparr>"
    using t2 nan by simp
  from nan a b c show ?thesis by blast
qed

section \<open>Dragging the probe ball\<close>





section \<open>The matrix composition animator\<close>

lemma progress_next_ge_one: "(1 \<le> real j / 50 + 0.02) = (49 \<le> j)"
proof -
  have "(1 \<le> real j / 50 + 0.02) = (50 \<le> real j + 1)" by (simp add: field_simps)
  also have "\<dots> = (real (49::nat) \<le> real j)" by simp
  also have "\<dots> = (49 \<le> j)" by (simp only: of_nat_le_iff)
  finally show ?thesis .
qed

lemma lerpMatrix_zero: "lerpMatrix A B 0 = A"
  by (simp add: lerpMatrix_def)

lemma animationFrame_within:
  assumes "mm_isAnimating s" "mm_stepIndex s < length (mm_queue s)" "mm_progress s + 0.02 < 1"
  shows "animationFrame s =
     Inr (s\<lparr> mm_progress := mm_progress s + 0.02,
             mm_currentMatrix :=
               lerpMatrix (mm_accumulatedMatrix s)
                 (multiply (ts_matrix (mm_queue s ! mm_stepIndex s)) (mm_accumulatedMatrix s))
                 ((mm_progress s + 0.02) * (mm_progress s + 0.02) * (3 - 2 * (mm_progress s + 0.02))) \<rparr>)"
proof -
  have "progressTick s = Inr (s\<lparr> mm_progress := mm_progress s + 0.02 \<rparr>)"
    using assms(3) by (simp add: progressTick_def Let_def not_le)
  moreover have "mm_queue s \<noteq> []" using assms(2) by auto
  ultimately show ?thesis
    using assms(1,2) by (simp add: animationFrame_def visualEffect_def stepMatrixAt_def Let_def)
qed

lemma animationFrame_boundary:
  assumes "mm_isAnimating s" "Suc (mm_stepIndex s) < length (mm_queue s)" "1 \<le> mm_progress s + 0.02"
  shows "animationFrame s =
     Inr (s\<lparr> mm_accumulatedMatrix :=
               multiply (ts_matrix (mm_queue s ! mm_stepIndex s)) (mm_accumulatedMatrix s),
             mm_stepIndex := mm_stepIndex s + 1,
             mm_progress := 0,
             mm_currentMatrix :=
               multiply (ts_matrix (mm_queue s ! mm_stepIndex s)) (mm_accumulatedMatrix s) \<rparr>)"
proof -
  have lt: "int (mm_stepIndex s) < int (length (mm_queue s)) - 1" using assms(2) by linarith
  have "progressTick s = Inr (s\<lparr> mm_accumulatedMatrix :=
               multiply (ts_matrix (mm_queue s ! mm_stepIndex s)) (mm_accumulatedMatrix s),
             mm_stepIndex := mm_stepIndex s + 1, mm_progress := 0 \<rparr>)"
    unfolding progressTick_def Let_def using assms(2,3) lt
    by (simp add: stepMatrixAt_def)
  moreover have "mm_queue s \<noteq> []" using assms(2) by auto
  ultimately show ?thesis
    using assms(1,2)
    by (simp add: animationFrame_def visualEffect_def stepMatrixAt_def Let_def lerpMatrix_zero)
qed

lemma animationFrame_final:
  assumes "mm_isAnimating s" "Suc (mm_stepIndex s) = length (mm_queue s)" "1 \<le> mm_progress s + 0.02"
  shows "animationFrame s =
     Inr (s\<lparr> mm_currentMatrix :=
               multiply (ts_matrix (mm_queue s ! mm_stepIndex s)) (mm_accumulatedMatrix s),
             mm_isAnimating := False,
             mm_progress := 1 \<rparr>)"
proof -
  have nlt: "\<not> int (mm_stepIndex s) < int (length (mm_queue s)) - 1" using assms(2) by linarith
  have "progressTick s = Inr (s\<lparr> mm_currentMatrix :=
               multiply (ts_matrix (mm_queue s ! mm_stepIndex s)) (mm_accumulatedMatrix s),
             mm_isAnimating := False, mm_progress := 1 \<rparr>)"
    unfolding progressTick_def Let_def using assms(2,3) nlt
    by (simp add: stepMatrixAt_def)
  moreover have "mm_queue s \<noteq> []" using assms(2) by auto
  ultimately show ?thesis
    by (simp add: animationFrame_def visualEffect_def)
qed

lemma animate_completes:
  assumes "mm_isAnimating s" "mm_stepIndex s < length (mm_queue s)"
      and "mm_progress s = real j / 50" "j \<le> 49"
  shows "\<exists>s'. animate s = Some (Inr s') \<and> \<not> mm_isAnimating s' \<and> mm_queue s' = mm_queue s \<and>
          mm_currentMatrix s'
            = composeOnto (mm_accumulatedMatrix s) (map ts_matrix (drop (mm_stepIndex s) (mm_queue s)))"
  using assms
proof (induction "50 * (length (mm_queue s) - mm_stepIndex s) - j" arbitrary: s j rule: less_induct)
  case less
  let ?q = "mm_queue s" and ?i = "mm_stepIndex s" and ?A = "mm_accumulatedMatrix s"
  let ?M = "ts_matrix (?q ! ?i)"
  have dropi: "drop ?i ?q = (?q ! ?i) # drop (Suc ?i) ?q"
    using less.prems(2) by (simp add: Cons_nth_drop_Suc)
  have unroll: "animate s = (case animationFrame s of Inl e \<Rightarrow> Some (Inl e) | Inr s' \<Rightarrow> animate s')"
    using less.prems(1) by (subst animate.simps) simp
  consider (within) "j < 49" | (boundary) "j = 49" "Suc ?i < length ?q"
    | (final) "j = 49" "Suc ?i = length ?q"
    using less.prems(2,4) by linarith
  then show ?case
  proof cases
    case within
    then have lt1: "mm_progress s + 0.02 < 1"
      using progress_next_ge_one [of j] less.prems(3) by (simp add: not_le [symmetric])
    let ?s' = "s\<lparr> mm_progress := mm_progress s + 0.02,
             mm_currentMatrix := lerpMatrix ?A (multiply ?M ?A)
                 ((mm_progress s + 0.02) * (mm_progress s + 0.02) * (3 - 2 * (mm_progress s + 0.02))) \<rparr>"
    have fr: "animationFrame s = Inr ?s'"
      by (rule animationFrame_within [OF less.prems(1,2) lt1])
    have p': "mm_progress ?s' = real (Suc j) / 50"
      using less.prems(3) by (simp add: field_simps)
    have m: "50 * (length (mm_queue ?s') - mm_stepIndex ?s') - Suc j
               < 50 * (length ?q - ?i) - j"
      using less.prems(2) within by simp
    have "\<exists>s''. animate ?s' = Some (Inr s'') \<and> \<not> mm_isAnimating s'' \<and> mm_queue s'' = mm_queue ?s' \<and>
          mm_currentMatrix s''
            = composeOnto (mm_accumulatedMatrix ?s') (map ts_matrix (drop (mm_stepIndex ?s') (mm_queue ?s')))"
      by (rule less.hyps [OF m _ _ p']) (use less.prems within in simp_all)
    then show ?thesis unfolding unroll fr by simp
  next
    case boundary
    have ge1: "1 \<le> mm_progress s + 0.02"
      using progress_next_ge_one [of j] less.prems(3) boundary(1) by simp
    let ?s' = "s\<lparr> mm_accumulatedMatrix := multiply ?M ?A, mm_stepIndex := ?i + 1,
                   mm_progress := 0, mm_currentMatrix := multiply ?M ?A \<rparr>"
    have fr: "animationFrame s = Inr ?s'"
      by (rule animationFrame_boundary [OF less.prems(1) boundary(2) ge1])
    have p': "mm_progress ?s' = real (0::nat) / 50" by simp
    have m: "50 * (length (mm_queue ?s') - mm_stepIndex ?s') - 0
               < 50 * (length ?q - ?i) - j"
      using boundary by simp
    have "\<exists>s''. animate ?s' = Some (Inr s'') \<and> \<not> mm_isAnimating s'' \<and> mm_queue s'' = mm_queue ?s' \<and>
          mm_currentMatrix s''
            = composeOnto (mm_accumulatedMatrix ?s') (map ts_matrix (drop (mm_stepIndex ?s') (mm_queue ?s')))"
      by (rule less.hyps [OF m _ _ p']) (use less.prems boundary in simp_all)
    moreover have "composeOnto (multiply ?M ?A) (map ts_matrix (drop (Suc ?i) ?q))
        = composeOnto ?A (map ts_matrix (drop ?i ?q))"
      by (simp add: composeOnto_def dropi)
    ultimately show ?thesis unfolding unroll fr by simp
  next
    case final
    have ge1: "1 \<le> mm_progress s + 0.02"
      using progress_next_ge_one [of j] less.prems(3) final(1) by simp
    let ?s' = "s\<lparr> mm_currentMatrix := multiply ?M ?A, mm_isAnimating := False, mm_progress := 1 \<rparr>"
    have fr: "animationFrame s = Inr ?s'"
      by (rule animationFrame_final [OF less.prems(1) final(2) ge1])
    have stop: "animate ?s' = Some (Inr ?s')" by (subst animate.simps) simp
    have "drop (Suc ?i) ?q = []" using final(2) by simp
    then have "composeOnto ?A (map ts_matrix (drop ?i ?q)) = multiply ?M ?A"
      by (simp add: composeOnto_def dropi)
    then show ?thesis unfolding unroll fr using stop by simp
  qed
qed

text \<open>
  C4. For every queue of steps: inside a step, a frame advances the progress and shows
  the component-wise interpolation from the accumulated total \<open>A\<close> to \<open>M\<^sub>i * A\<close> at the
  eased parameter \<open>t' = t * t * (3 - 2 * t)\<close>; at a step boundary that is not the last,
  the accumulated total becomes \<open>M\<^sub>i * A\<close> (left multiplication), the next step starts
  at progress 0 and the matrix shown is the new total; and a run started by
  \<open>runSequence\<close> on a non-empty queue \<open>[M\<^sub>1, \<dots>, M\<^sub>k]\<close> ends (the animation switches
  itself off without an exception) showing \<open>M\<^sub>k * \<dots> * M\<^sub>2 * M\<^sub>1\<close>, where that product
  is built by multiplying each next matrix from the left.
\<close>

theorem animator_interpolates_and_composes_left_to_right:
  "(mm_isAnimating s \<and> mm_stepIndex s < length (mm_queue s) \<and> mm_progress s + 0.02 < 1 \<longrightarrow>
      (let A = mm_accumulatedMatrix s;
           T = multiply (ts_matrix (mm_queue s ! mm_stepIndex s)) A;
           t = mm_progress s + 0.02;
           t' = t * t * (3 - 2 * t)
       in animationFrame s =
            Inr (s\<lparr> mm_progress := t,
                    mm_currentMatrix :=
                      \<lparr> m2_a = m2_a A + (m2_a T - m2_a A) * t',
                        m2_b = m2_b A + (m2_b T - m2_b A) * t',
                        m2_c = m2_c A + (m2_c T - m2_c A) * t',
                        m2_d = m2_d A + (m2_d T - m2_d A) * t' \<rparr> \<rparr>))) \<and>
   (mm_isAnimating s \<and> Suc (mm_stepIndex s) < length (mm_queue s) \<and> 1 \<le> mm_progress s + 0.02 \<longrightarrow>
      (let T = multiply (ts_matrix (mm_queue s ! mm_stepIndex s)) (mm_accumulatedMatrix s)
       in animationFrame s =
            Inr (s\<lparr> mm_accumulatedMatrix := T, mm_stepIndex := mm_stepIndex s + 1,
                    mm_progress := 0, mm_currentMatrix := T \<rparr>))) \<and>
   (mm_queue s \<noteq> [] \<longrightarrow>
      (\<exists>s'. animate (runSequence s) = Some (Inr s') \<and> \<not> mm_isAnimating s' \<and>
            mm_currentMatrix s' = composeOnto identityM (map ts_matrix (mm_queue s)))) \<and>
   composeOnto A [] = A \<and>
   composeOnto A (ms @ [M]) = multiply M (composeOnto A ms)"
proof (intro conjI impI)
  assume h: "mm_isAnimating s \<and> mm_stepIndex s < length (mm_queue s) \<and> mm_progress s + 0.02 < 1"
  then have "animationFrame s =
     Inr (s\<lparr> mm_progress := mm_progress s + 0.02,
             mm_currentMatrix :=
               lerpMatrix (mm_accumulatedMatrix s)
                 (multiply (ts_matrix (mm_queue s ! mm_stepIndex s)) (mm_accumulatedMatrix s))
                 ((mm_progress s + 0.02) * (mm_progress s + 0.02) * (3 - 2 * (mm_progress s + 0.02))) \<rparr>)"
    using animationFrame_within [of s] by blast
  then show "let A = mm_accumulatedMatrix s;
           T = multiply (ts_matrix (mm_queue s ! mm_stepIndex s)) A;
           t = mm_progress s + 0.02;
           t' = t * t * (3 - 2 * t)
       in animationFrame s =
            Inr (s\<lparr> mm_progress := t,
                    mm_currentMatrix :=
                      \<lparr> m2_a = m2_a A + (m2_a T - m2_a A) * t',
                        m2_b = m2_b A + (m2_b T - m2_b A) * t',
                        m2_c = m2_c A + (m2_c T - m2_c A) * t',
                        m2_d = m2_d A + (m2_d T - m2_d A) * t' \<rparr> \<rparr>)"
    unfolding Let_def lerpMatrix_def by (simp only:)
next
  assume h: "mm_isAnimating s \<and> Suc (mm_stepIndex s) < length (mm_queue s) \<and> 1 \<le> mm_progress s + 0.02"
  then show "let T = multiply (ts_matrix (mm_queue s ! mm_stepIndex s)) (mm_accumulatedMatrix s)
       in animationFrame s =
            Inr (s\<lparr> mm_accumulatedMatrix := T, mm_stepIndex := mm_stepIndex s + 1,
                    mm_progress := 0, mm_currentMatrix := T \<rparr>)"
    unfolding Let_def using animationFrame_boundary [of s] by blast
next
  assume ne: "mm_queue s \<noteq> []"
  let ?r = "runSequence s"
  have r: "mm_isAnimating ?r" "mm_stepIndex ?r = 0" "mm_queue ?r = mm_queue s"
    "mm_progress ?r = real (0::nat) / 50" "mm_accumulatedMatrix ?r = identityM"
    using ne by (simp_all add: runSequence_def)
  have "\<exists>s'. animate ?r = Some (Inr s') \<and> \<not> mm_isAnimating s' \<and> mm_queue s' = mm_queue ?r \<and>
          mm_currentMatrix s'
            = composeOnto (mm_accumulatedMatrix ?r) (map ts_matrix (drop (mm_stepIndex ?r) (mm_queue ?r)))"
    by (rule animate_completes [OF r(1) _ r(4)]) (use ne r in simp_all)
  then show "\<exists>s'. animate ?r = Some (Inr s') \<and> \<not> mm_isAnimating s' \<and>
            mm_currentMatrix s' = composeOnto identityM (map ts_matrix (mm_queue s))"
    unfolding r by auto
next
  show "composeOnto A [] = A" by (simp add: composeOnto_def)
  show "composeOnto A (ms @ [M]) = multiply M (composeOnto A ms)" by (simp add: composeOnto_def)
qed

theorem animator_interpolates_and_composes_left_to_right_witness:
  "animationFrame (runSequence (addStep ''SHEAR'' ''2'' (addStep ''ROTATE'' ''1'' mm_init)))
     = Inr (runSequence (addStep ''SHEAR'' ''2'' (addStep ''ROTATE'' ''1'' mm_init))
             \<lparr> mm_progress := 0.02,
               mm_currentMatrix := \<lparr> m2_a = 0.998816, m2_b = - 0.001184,
                                     m2_c = 0.001184, m2_d = 0.998816 \<rparr> \<rparr>) \<and>
   animationFrame (runSequence (addStep ''SHEAR'' ''2'' (addStep ''ROTATE'' ''1'' mm_init))
                     \<lparr> mm_progress := 0.98 \<rparr>)
     = Inr (runSequence (addStep ''SHEAR'' ''2'' (addStep ''ROTATE'' ''1'' mm_init))
             \<lparr> mm_accumulatedMatrix := \<lparr> m2_a = 0, m2_b = - 1, m2_c = 1, m2_d = 0 \<rparr>,
               mm_stepIndex := 1, mm_progress := 0,
               mm_currentMatrix := \<lparr> m2_a = 0, m2_b = - 1, m2_c = 1, m2_d = 0 \<rparr> \<rparr>) \<and>
   (\<exists>s'. animate (runSequence (addStep ''SHEAR'' ''2'' (addStep ''ROTATE'' ''1'' mm_init)))
            = Some (Inr s') \<and> \<not> mm_isAnimating s' \<and>
          mm_currentMatrix s' = \<lparr> m2_a = 1, m2_b = - 1, m2_c = 1, m2_d = 0 \<rparr>)"
proof -
  let ?q = "addStep ''SHEAR'' ''2'' (addStep ''ROTATE'' ''1'' mm_init)"
  let ?r = "runSequence ?q"
  let ?b = "?r\<lparr> mm_progress := 0.98 \<rparr>"
  have q: "mm_queue ?q =
      [\<lparr> ts_id = ''1'', ts_name = ''ROTAR 90'',
         ts_matrix = \<lparr> m2_a = 0, m2_b = - 1, m2_c = 1, m2_d = 0 \<rparr>, ts_color = ''text-yellow-400'' \<rparr>,
       \<lparr> ts_id = ''2'', ts_name = ''CIZALLA X'',
         ts_matrix = \<lparr> m2_a = 1, m2_b = 1, m2_c = 0, m2_d = 1 \<rparr>, ts_color = ''text-red-400'' \<rparr>]"
    by (simp add: addStep_def mm_init_def)
  have r: "mm_isAnimating ?r" "mm_stepIndex ?r = 0" "mm_queue ?r = mm_queue ?q"
    "mm_progress ?r = 0" "mm_accumulatedMatrix ?r = identityM"
    using q by (simp_all add: runSequence_def)
  have hA: "mm_isAnimating ?r \<and> mm_stepIndex ?r < length (mm_queue ?r) \<and> mm_progress ?r + 0.02 < 1"
    using r q by simp
  have hB: "mm_isAnimating ?b \<and> Suc (mm_stepIndex ?b) < length (mm_queue ?b) \<and> 1 \<le> mm_progress ?b + 0.02"
    using r q by simp
  have hC: "mm_queue ?q \<noteq> []" using q by simp
  note tA = animator_interpolates_and_composes_left_to_right
    [where s = ?r, THEN conjunct1, THEN mp, OF hA]
  note tB = animator_interpolates_and_composes_left_to_right
    [where s = ?b, THEN conjunct2, THEN conjunct1, THEN mp, OF hB]
  note tC = animator_interpolates_and_composes_left_to_right
    [where s = ?q, THEN conjunct2, THEN conjunct2, THEN conjunct1, THEN mp, OF hC]
  have mA: "multiply (ts_matrix (mm_queue ?r ! mm_stepIndex ?r)) identityM
      = \<lparr> m2_a = 0, m2_b = - 1, m2_c = 1, m2_d = 0 \<rparr>"
    unfolding r q by (simp add: multiply_def identityM_def)
  have a: "animationFrame ?r
     = Inr (?r\<lparr> mm_progress := 0.02,
               mm_currentMatrix := \<lparr> m2_a = 0.998816, m2_b = - 0.001184,
                                     m2_c = 0.001184, m2_d = 0.998816 \<rparr> \<rparr>)"
    using tA unfolding Let_def mA r(4,5) by (simp add: identityM_def)
  have mB: "multiply (ts_matrix (mm_queue ?b ! mm_stepIndex ?b)) (mm_accumulatedMatrix ?b)
      = \<lparr> m2_a = 0, m2_b = - 1, m2_c = 1, m2_d = 0 \<rparr>"
    using r q by (simp add: multiply_def identityM_def)
  have sb: "mm_stepIndex ?b + 1 = 1" using r by simp
  have b: "animationFrame ?b
     = Inr (?r\<lparr> mm_accumulatedMatrix := \<lparr> m2_a = 0, m2_b = - 1, m2_c = 1, m2_d = 0 \<rparr>,
               mm_stepIndex := 1, mm_progress := 0,
               mm_currentMatrix := \<lparr> m2_a = 0, m2_b = - 1, m2_c = 1, m2_d = 0 \<rparr> \<rparr>)"
    using tB unfolding Let_def mB sb by simp
  have "composeOnto identityM (map ts_matrix (mm_queue ?q)) = \<lparr> m2_a = 1, m2_b = - 1, m2_c = 1, m2_d = 0 \<rparr>"
    unfolding q by (simp add: composeOnto_def multiply_def identityM_def)
  with tC have c: "\<exists>s'. animate ?r = Some (Inr s') \<and> \<not> mm_isAnimating s' \<and>
          mm_currentMatrix s' = \<lparr> m2_a = 1, m2_b = - 1, m2_c = 1, m2_d = 0 \<rparr>"
    by simp
  from a b c show ?thesis by blast
qed

section \<open>The Riemann grid in exact arithmetic\<close>

lemma gridLoopY_run:
  assumes stp: "0 < stp" and top: "rng = lo + real n * stp"
  shows "k \<le> n \<Longrightarrow>
    gridLoopY (\<lambda>v. v) f rng stp x (lo + real k * stp) acc =
      Some (fst acc + (\<Sum>j = k..<n. (let h = f (x + stp / 2) (lo + real j * stp + stp / 2)
                                        in if h > 0 then h * (stp * stp) else 0)),
            snd acc @ filter (\<lambda>p. prism_height p > 0)
              (map (\<lambda>j. \<lparr> prism_x = x, prism_y = lo + real j * stp,
                           prism_height = f (x + stp / 2) (lo + real j * stp + stp / 2) \<rparr>) [k..<n]))"
proof (induction "n - k" arbitrary: k acc)
  case 0
  then have "k = n" by simp
  then have "\<not> lo + real k * stp < rng" using top by simp
  then show ?case using \<open>k = n\<close> by (subst gridLoopY.simps) simp
next
  case (Suc d)
  then have kn: "k < n" and d: "d = n - Suc k" and le: "Suc k \<le> n" by simp_all
  have lt: "lo + real k * stp < rng" using kn stp top by simp
  have nxt: "lo + real k * stp + stp = lo + real (Suc k) * stp" by (simp add: algebra_simps)
  have ih: "\<And>acc. gridLoopY (\<lambda>v. v) f rng stp x (lo + real (Suc k) * stp) acc =
      Some (fst acc + (\<Sum>j = Suc k..<n. (let h = f (x + stp / 2) (lo + real j * stp + stp / 2)
                                        in if h > 0 then h * (stp * stp) else 0)),
            snd acc @ filter (\<lambda>p. prism_height p > 0)
              (map (\<lambda>j. \<lparr> prism_x = x, prism_y = lo + real j * stp,
                           prism_height = f (x + stp / 2) (lo + real j * stp + stp / 2) \<rparr>) [Suc k..<n]))"
    using Suc.hyps(1) [OF d le] .
  have split_sum: "\<And>g::nat \<Rightarrow> real. (\<Sum>j = k..<n. g j) = g k + (\<Sum>j = Suc k..<n. g j)"
    using kn by (simp add: sum.atLeast_Suc_lessThan)
  have split_list: "[k..<n] = k # [Suc k..<n]" using kn by (simp add: upt_conv_Cons)
  show ?case
    apply (subst gridLoopY.simps)
    apply (simp only: lt if_True Let_def nxt ih split_sum split_list)
    apply (simp add: not_le)
    done
qed


lemma gridLoopX_run:
  assumes stp: "0 < stp" and top: "rng = - rng + real n * stp"
  shows "i \<le> n \<Longrightarrow>
    gridLoopX (\<lambda>v. v) f rng stp (- rng + real i * stp) acc =
      Some (fst acc + (\<Sum>a = i..<n. \<Sum>j = 0..<n.
                (let h = f (- rng + real a * stp + stp / 2) (- rng + real j * stp + stp / 2)
                 in if h > 0 then h * (stp * stp) else 0)),
            snd acc @ concat (map (\<lambda>a. filter (\<lambda>p. prism_height p > 0)
              (map (\<lambda>j. \<lparr> prism_x = - rng + real a * stp, prism_y = - rng + real j * stp,
                           prism_height = f (- rng + real a * stp + stp / 2)
                                            (- rng + real j * stp + stp / 2) \<rparr>) [0..<n]))
              [i..<n]))"
proof (induction "n - i" arbitrary: i acc)
  case 0
  then have "i = n" by simp
  then have "\<not> - rng + real i * stp < rng" using top by simp
  then show ?case using \<open>i = n\<close> by (subst gridLoopX.simps) simp
next
  case (Suc d)
  then have kn: "i < n" and d: "d = n - Suc i" and le: "Suc i \<le> n" by simp_all
  have lt: "- rng + real i * stp < rng"
  proof -
    have "real i * stp < real n * stp" using kn stp by simp
    then show ?thesis using top by linarith
  qed
  have nxt: "- rng + real i * stp + stp = - rng + real (Suc i) * stp" by (simp add: algebra_simps)
  have inner: "\<And>acc. gridLoopY (\<lambda>v. v) f rng stp (- rng + real i * stp) (- rng) acc =
      Some (fst acc + (\<Sum>j = 0..<n. (let h = f (- rng + real i * stp + stp / 2) (- rng + real j * stp + stp / 2)
                                        in if h > 0 then h * (stp * stp) else 0)),
            snd acc @ filter (\<lambda>p. prism_height p > 0)
              (map (\<lambda>j. \<lparr> prism_x = - rng + real i * stp, prism_y = - rng + real j * stp,
                           prism_height = f (- rng + real i * stp + stp / 2) (- rng + real j * stp + stp / 2) \<rparr>) [0..<n]))"
    using gridLoopY_run [OF stp top, of 0 f "- rng + real i * stp"] by simp
  have split_sum: "\<And>g::nat \<Rightarrow> real. (\<Sum>a = i..<n. g a) = g i + (\<Sum>a = Suc i..<n. g a)"
    using kn by (simp add: sum.atLeast_Suc_lessThan)
  have split_list: "[i..<n] = i # [Suc i..<n]" using kn by (simp add: upt_conv_Cons)
  show ?case
    apply (subst gridLoopX.simps)
    apply (simp only: lt if_True inner Option.bind.simps nxt Suc.hyps(1) [OF d le] split_sum split_list)
    apply (simp add: add.assoc)
    done
qed

lemma riemannGrid_exact_midpoint_positive_cells:
  assumes n: "1 \<le> n" and r: "0 < r"
  shows "riemannGrid (\<lambda>v. v) f r n =
     Some (\<Sum>i<n. \<Sum>j<n. cellVolume f r n i j,
           filter (\<lambda>p. prism_height p > 0)
             (concat (map (\<lambda>i. map (\<lambda>j. cellPrism f r n i j) [0..<n]) [0..<n])))"
proof -
  let ?stp = "r * 2 / real n"
  have stp: "0 < ?stp" using n r by simp
  have top: "r = - r + real n * ?stp" using n by simp
  have e: "?stp = 2 * r / real n" by simp
  have "riemannGrid (\<lambda>v. v) f r n = gridLoopX (\<lambda>v. v) f r ?stp (- r + real 0 * ?stp) (0, [])"
    by (simp add: riemannGrid_def)
  also have "\<dots> = Some (fst (0::real, []::Prism list) + (\<Sum>a = 0..<n. \<Sum>j = 0..<n.
                (let h = f (- r + real a * ?stp + ?stp / 2) (- r + real j * ?stp + ?stp / 2)
                 in if h > 0 then h * (?stp * ?stp) else 0)),
            snd (0::real, []::Prism list) @ concat (map (\<lambda>a. filter (\<lambda>p. prism_height p > 0)
              (map (\<lambda>j. \<lparr> prism_x = - r + real a * ?stp, prism_y = - r + real j * ?stp,
                           prism_height = f (- r + real a * ?stp + ?stp / 2)
                                            (- r + real j * ?stp + ?stp / 2) \<rparr>) [0..<n]))
              [0..<n]))"
    by (rule gridLoopX_run [OF stp top]) simp
  also have "\<dots> = Some (\<Sum>i<n. \<Sum>j<n. cellVolume f r n i j,
           filter (\<lambda>p. prism_height p > 0)
             (concat (map (\<lambda>i. map (\<lambda>j. cellPrism f r n i j) [0..<n]) [0..<n])))"
    unfolding e
    by (simp add: cellVolume_def cellMid_def cellPrism_def Let_def atLeast0LessThan
        filter_concat comp_def cong: if_cong)
  finally show ?thesis .
qed


lemma riemannGrid_exact_example:
  "riemannGrid (\<lambda>v. v) (\<lambda>x y. x) 3 2 =
     Some (27, [\<lparr> prism_x = 0, prism_y = - 3, prism_height = 3 / 2 \<rparr>,
                \<lparr> prism_x = 0, prism_y = 0, prism_height = 3 / 2 \<rparr>])"
proof -
  have n: "1 \<le> (2::nat)" and r: "0 < (3::real)" by simp_all
  have u: "[0..<2] = [0, Suc 0]" by (simp add: upt_rec numeral_2_eq_2)
  have l: "{..<2::nat} = {0, Suc 0}" by auto
  show ?thesis
    unfolding riemannGrid_exact_midpoint_positive_cells [OF n r, of "\<lambda>x y. x"]
    by (simp add: u l cellVolume_def cellMid_def cellPrism_def)
qed


section \<open>The grid loops by the values of their loop variables\<close>

lemma cellBody_step:
  "(let midX = rnd (x + rnd (stp / 2));
        midY = rnd (y + rnd (stp / 2));
        height = f midX midY
    in if height \<le> 0 then gridLoopY rnd f rng stp x y' acc
       else gridLoopY rnd f rng stp x y'
              (rnd (fst acc + rnd (height * rnd (stp * stp))),
               snd acc @ [\<lparr> prism_x = x, prism_y = y, prism_height = height \<rparr>]))
   = gridLoopY rnd f rng stp x y' (cellBody rnd f stp x acc y)"
  by (simp add: cellBody_def Let_def)

lemma gridLoopY_ticks:
  "\<forall>v \<in> set (axisTicks rnd stp y m). v < rng \<Longrightarrow> \<not> axisEnd rnd stp y m < rng \<Longrightarrow>
     gridLoopY rnd f rng stp x y acc
       = Some (foldl (cellBody rnd f stp x) acc (axisTicks rnd stp y m))"
proof (induction m arbitrary: y acc)
  case 0
  then show ?case by (subst gridLoopY.simps) simp
next
  case (Suc m)
  then have lt: "y < rng" by simp
  have ih: "gridLoopY rnd f rng stp x (rnd (y + stp)) (cellBody rnd f stp x acc y)
      = Some (foldl (cellBody rnd f stp x) (cellBody rnd f stp x acc y)
                (axisTicks rnd stp (rnd (y + stp)) m))"
    by (rule Suc.IH) (use Suc.prems in simp_all)
  show ?case
    by (subst gridLoopY.simps) (simp only: lt if_True cellBody_step ih axisTicks.simps foldl_Cons)
qed

lemma gridLoopX_ticks:
  assumes Y: "\<forall>v \<in> set (axisTicks rnd stp (- rng) my). v < rng" "\<not> axisEnd rnd stp (- rng) my < rng"
  shows "\<forall>v \<in> set (axisTicks rnd stp x m). v < rng \<Longrightarrow> \<not> axisEnd rnd stp x m < rng \<Longrightarrow>
     gridLoopX rnd f rng stp x acc
       = Some (foldl (\<lambda>acc x. foldl (cellBody rnd f stp x) acc (axisTicks rnd stp (- rng) my))
                 acc (axisTicks rnd stp x m))"
proof (induction m arbitrary: x acc)
  case 0
  then show ?case by (subst gridLoopX.simps) simp
next
  case (Suc m)
  then have lt: "x < rng" by simp
  have row: "gridLoopY rnd f rng stp x (- rng) acc
      = Some (foldl (cellBody rnd f stp x) acc (axisTicks rnd stp (- rng) my))"
    by (rule gridLoopY_ticks [OF Y])
  have ih: "\<And>acc. gridLoopX rnd f rng stp (rnd (x + stp)) acc
      = Some (foldl (\<lambda>acc x. foldl (cellBody rnd f stp x) acc (axisTicks rnd stp (- rng) my))
                 acc (axisTicks rnd stp (rnd (x + stp)) m))"
    by (rule Suc.IH) (use Suc.prems in simp_all)
  show ?case
    by (subst gridLoopX.simps)
       (simp only: lt if_True row Option.bind.simps ih axisTicks.simps foldl_Cons)
qed

lemma foldl_cellBody_prisms:
  assumes pos: "\<And>a b. 0 < f a b"
  shows "snd (foldl (cellBody rnd f stp x) acc ys)
     = snd acc @ map (\<lambda>y. \<lparr> prism_x = x, prism_y = y,
                            prism_height = f (rnd (x + rnd (stp / 2))) (rnd (y + rnd (stp / 2))) \<rparr>) ys"
proof (induction ys arbitrary: acc)
  case Nil
  show ?case by simp
next
  case (Cons y ys)
  have "\<not> f (rnd (x + rnd (stp / 2))) (rnd (y + rnd (stp / 2))) \<le> 0"
    using pos [of "rnd (x + rnd (stp / 2))" "rnd (y + rnd (stp / 2))"] by simp
  then have "snd (cellBody rnd f stp x acc y)
      = snd acc @ [\<lparr> prism_x = x, prism_y = y,
                      prism_height = f (rnd (x + rnd (stp / 2))) (rnd (y + rnd (stp / 2))) \<rparr>]"
    by (simp add: cellBody_def Let_def)
  then show ?case using Cons [of "cellBody rnd f stp x acc y"] by simp
qed

lemma foldl_rows_prisms:
  assumes pos: "\<And>a b. 0 < f a b"
  shows "snd (foldl (\<lambda>acc x. foldl (cellBody rnd f stp x) acc ys) acc xs)
     = snd acc @ concat (map (\<lambda>x. map (\<lambda>y. \<lparr> prism_x = x, prism_y = y,
                            prism_height = f (rnd (x + rnd (stp / 2))) (rnd (y + rnd (stp / 2))) \<rparr>) ys) xs)"
proof (induction xs arbitrary: acc)
  case Nil
  show ?case by simp
next
  case (Cons x xs)
  show ?case
    using Cons [of "foldl (cellBody rnd f stp x) acc ys"]
    by (simp add: foldl_cellBody_prisms [OF pos])
qed

section \<open>Resolution 9 in double arithmetic\<close>

lemma round_half_even_ge_one: "1 \<le> v \<Longrightarrow> 1 \<le> round_half_even v"
proof -
  assume "1 \<le> v"
  then have "1 \<le> \<lfloor>v\<rfloor>" by simp
  then show ?thesis by (simp add: round_half_even_def Let_def)
qed

lemma round_double_pos:
  assumes "0 < v"
  shows "0 < round_double v"
proof -
  define l where "l = \<lfloor>log 2 v\<rfloor>"
  have av: "\<bar>v\<bar> = v" using assms by simp
  have "of_int l \<le> log 2 v" unfolding l_def by simp
  then have "2 powr of_int l \<le> 2 powr log 2 v" by (simp only: powr_le_cancel_iff)
  then have pl: "2 powr of_int l \<le> v" using assms by simp
  have a: "(0::real) < 2 powr of_int l" by simp
  have one: "1 \<le> v / 2 powr of_int l" using pl a by simp
  have p52: "(1::real) \<le> 2 powr 52" by simp
  have pe: "(2::real) powr of_int (l - 52) = 2 powr of_int l / 2 powr 52"
    using powr_diff [of "2::real" "of_int l" 52] by simp
  have h1: "(2::real) powr of_int l / 2 powr 52 \<le> 2 powr of_int l / 1"
    by (rule divide_left_mono) (use p52 a in simp_all)
  have h2: "(2::real) powr of_int l / 1 = 2 powr of_int l" by simp
  have le: "(2::real) powr of_int l / 2 powr 52 \<le> v"
    using h1 pl unfolding h2 by (rule order_trans)
  have "(0::real) < 2 powr of_int l / 2 powr 52" by simp
  then have "1 \<le> v / ((2::real) powr of_int l / 2 powr 52)"
    using le by (simp only: le_divide_eq_1_pos)
  then have "1 \<le> v / 2 powr of_int (l - 52)" unfolding pe .
  then have "1 \<le> round_half_even (v / 2 powr of_int (l - 52))" by (rule round_half_even_ge_one)
  then have "(0::real) < of_int (round_half_even (v / 2 powr of_int (l - 52)))" by simp
  moreover have "(0::real) < 2 powr of_int (l - 52)" by simp
  ultimately have "(0::real) < of_int (round_half_even (v / 2 powr of_int (l - 52))) * 2 powr of_int (l - 52)"
    by (rule mult_pos_pos)
  then show ?thesis using assms unfolding round_double_def Let_def av l_def by simp
qed

lemma round_double_nonneg: "0 \<le> v \<Longrightarrow> 0 \<le> round_double v"
  using round_double_pos [of v] by (cases "v = 0") (simp_all add: round_double_def less_eq_real_def)

lemma paraboloide_double_pos: "0 < paraboloide round_double a b"
proof -
  have "0 \<le> round_double (a * a)" "0 \<le> round_double (b * b)"
    by (rule round_double_nonneg, simp)+
  then have "0 \<le> round_double (round_double (a * a) + round_double (b * b))"
    by (intro round_double_nonneg) simp
  then have "0 \<le> round_double (round_double (round_double (a * a) + round_double (b * b)) / 8)"
    by (intro round_double_nonneg) simp
  then show ?thesis unfolding paraboloide_def by (intro round_double_pos) simp
qed

lemma paraboloide_exact_pos: "0 < paraboloide (\<lambda>v. v) a b"
proof -
  have "0 \<le> (a * a + b * b) / 8" by simp
  then show ?thesis unfolding paraboloide_def by linarith
qed

lemma grid_step_double: "round_double (round_double (3 * 2) / real 9) = 6004799503160661 / 2 ^ 53"
proof -
  have six: "round_double (3 * 2) = 6"
    using round_double_cert [of 6 50 "6 * 2 ^ 50"] by (simp add: round_half_even_def)
  have "round_double (6 / 9) = of_int 6004799503160661 / 2 ^ 53"
    by (rule round_double_cert) (simp_all add: round_half_even_def)
  then show ?thesis unfolding six by simp
qed

lemma grid_tick_1:
  "round_double (- 3 + 6004799503160661 / 2 ^ 53) = - 5254199565265579 / 2 ^ 51"
proof -
  have "round_double (- 3 + 6004799503160661 / 2 ^ 53) = of_int (- 5254199565265579) / 2 ^ 51"
    by (rule round_double_cert) (simp_all add: round_half_even_def)
  then show ?thesis by simp
qed

lemma grid_tick_2:
  "round_double (- 5254199565265579 / 2 ^ 51 + 6004799503160661 / 2 ^ 53) = - 7505999378950828 / 2 ^ 52"
proof -
  have "round_double (- 5254199565265579 / 2 ^ 51 + 6004799503160661 / 2 ^ 53) = of_int (- 7505999378950828) / 2 ^ 52"
    by (rule round_double_cert) (simp_all add: round_half_even_def)
  then show ?thesis by simp
qed

lemma grid_tick_3:
  "round_double (- 7505999378950828 / 2 ^ 52 + 6004799503160661 / 2 ^ 53) = - 4503599627370498 / 2 ^ 52"
proof -
  have "round_double (- 7505999378950828 / 2 ^ 52 + 6004799503160661 / 2 ^ 53) = of_int (- 4503599627370498) / 2 ^ 52"
    by (rule round_double_cert) (simp_all add: round_half_even_def)
  then show ?thesis by simp
qed

lemma grid_tick_4:
  "round_double (- 4503599627370498 / 2 ^ 52 + 6004799503160661 / 2 ^ 53) = - 6004799503160670 / 2 ^ 54"
proof -
  have "round_double (- 4503599627370498 / 2 ^ 52 + 6004799503160661 / 2 ^ 53) = of_int (- 6004799503160670) / 2 ^ 54"
    by (rule round_double_cert) (simp_all add: round_half_even_def)
  then show ?thesis by simp
qed

lemma grid_tick_5:
  "round_double (- 6004799503160670 / 2 ^ 54 + 6004799503160661 / 2 ^ 53) = 6004799503160652 / 2 ^ 54"
proof -
  have "round_double (- 6004799503160670 / 2 ^ 54 + 6004799503160661 / 2 ^ 53) = of_int (6004799503160652) / 2 ^ 54"
    by (rule round_double_cert) (simp_all add: round_half_even_def)
  then show ?thesis by simp
qed

lemma grid_tick_6:
  "round_double (6004799503160652 / 2 ^ 54 + 6004799503160661 / 2 ^ 53) = 9007199254740987 / 2 ^ 53"
proof -
  have "round_double (6004799503160652 / 2 ^ 54 + 6004799503160661 / 2 ^ 53) = of_int (9007199254740987) / 2 ^ 53"
    by (rule round_double_cert) (simp_all add: round_half_even_def)
  then show ?thesis by simp
qed

lemma grid_tick_7:
  "round_double (9007199254740987 / 2 ^ 53 + 6004799503160661 / 2 ^ 53) = 7505999378950824 / 2 ^ 52"
proof -
  have "round_double (9007199254740987 / 2 ^ 53 + 6004799503160661 / 2 ^ 53) = of_int (7505999378950824) / 2 ^ 52"
    by (rule round_double_cert) (simp_all add: round_half_even_def)
  then show ?thesis by simp
qed

lemma grid_tick_8:
  "round_double (7505999378950824 / 2 ^ 52 + 6004799503160661 / 2 ^ 53) = 5254199565265577 / 2 ^ 51"
proof -
  have "round_double (7505999378950824 / 2 ^ 52 + 6004799503160661 / 2 ^ 53) = of_int (5254199565265577) / 2 ^ 51"
    by (rule round_double_cert) (simp_all add: round_half_even_def)
  then show ?thesis by simp
qed

lemma grid_tick_9:
  "round_double (5254199565265577 / 2 ^ 51 + 6004799503160661 / 2 ^ 53) = 6755399441055742 / 2 ^ 51"
proof -
  have "round_double (5254199565265577 / 2 ^ 51 + 6004799503160661 / 2 ^ 53) = of_int (6755399441055742) / 2 ^ 51"
    by (rule round_double_cert) (simp_all add: round_half_even_def)
  then show ?thesis by simp
qed

lemma grid_tick_10:
  "round_double (6755399441055742 / 2 ^ 51 + 6004799503160661 / 2 ^ 53) = 8256599316845907 / 2 ^ 51"
proof -
  have "round_double (6755399441055742 / 2 ^ 51 + 6004799503160661 / 2 ^ 53) = of_int (8256599316845907) / 2 ^ 51"
    by (rule round_double_cert) (simp_all add: round_half_even_def)
  then show ?thesis by simp
qed

lemma concat_rows_length:
  "length (concat (map (\<lambda>x. map (g x) ys) xs)) = length xs * length ys"
  by (induction xs) simp_all

lemma concat_rows_last:
  "xs \<noteq> [] \<Longrightarrow> ys \<noteq> [] \<Longrightarrow> last (concat (map (\<lambda>x. map (g x) ys) xs)) = g (last xs) (last ys)"
proof (induction xs)
  case Nil
  then show ?case by simp
next
  case (Cons x xs)
  show ?case
  proof (cases "xs = []")
    case True
    then show ?thesis using Cons.prems by (simp add: last_map)
  next
    case False
    then have "concat (map (\<lambda>x. map (g x) ys) xs) \<noteq> []" using Cons.prems by (cases xs) simp_all
    then show ?thesis using Cons False by simp
  qed
qed

lemma grid_ticks_double:
  "axisTicks round_double (6004799503160661 / 2 ^ 53) (- 3)
      (Suc (Suc (Suc (Suc (Suc (Suc (Suc (Suc (Suc (Suc 0))))))))))
     = [- 3, - 5254199565265579 / 2 ^ 51, - 7505999378950828 / 2 ^ 52,
        - 4503599627370498 / 2 ^ 52, - 6004799503160670 / 2 ^ 54,
        6004799503160652 / 2 ^ 54, 9007199254740987 / 2 ^ 53, 7505999378950824 / 2 ^ 52,
        5254199565265577 / 2 ^ 51, 6755399441055742 / 2 ^ 51]"
  "axisEnd round_double (6004799503160661 / 2 ^ 53) (- 3)
      (Suc (Suc (Suc (Suc (Suc (Suc (Suc (Suc (Suc (Suc 0))))))))))
     = 8256599316845907 / 2 ^ 51"
  by (simp_all only: axisTicks.simps axisEnd.simps grid_tick_1 grid_tick_2 grid_tick_3
      grid_tick_4 grid_tick_5 grid_tick_6 grid_tick_7 grid_tick_8 grid_tick_9 grid_tick_10)

text \<open>
  C3. In exact arithmetic the loops visit the \<open>n \<times> n\<close> cells of side \<open>2r / n\<close> and sum
  \<open>f(midpoint) * (\<Delta>x * \<Delta>y)\<close> over the cells with a positive midpoint value, as the
  claim says (lemma \<open>riemannGrid_exact_midpoint_positive_cells\<close>, for every \<open>n \<ge> 1\<close>,
  \<open>r > 0\<close> and \<open>f\<close>). In the double arithmetic of the program the claim fails at
  resolution 9 on the default paraboloid with range 3: \<open>step\<close> is the double below
  \<open>2/3\<close>, after nine additions \<open>x\<close> is \<open>6755399441055742 / 2\<^sup>5\<^sup>1 = 2.999999999999999\<close>,
  still below 3, so both loops make a tenth turn and 100 prisms are summed, the last
  ones on cells that lie outside \<open>[-3, 3]\<^sup>2\<close>; exact arithmetic gives the 81 cells of the
  \<open>9 \<times> 9\<close> grid.
\<close>

theorem riemann_resolution_nine_sums_extra_cells:
  "(\<exists>vol ps. riemannGrid round_double (paraboloide round_double) 3 9 = Some (vol, ps) \<and>
       length ps = 100 \<and> prism_x (last ps) = 6755399441055742 / 2 ^ 51 \<and>
       prism_x (last ps) < 3) \<and>
   (\<exists>vol ps. riemannGrid (\<lambda>v. v) (paraboloide (\<lambda>v. v)) 3 9 = Some (vol, ps) \<and> length ps = 81)"
proof
  let ?stp = "6004799503160661 / 2 ^ 53 :: real"
  let ?ten = "Suc (Suc (Suc (Suc (Suc (Suc (Suc (Suc (Suc (Suc 0)))))))))"
  let ?xs = "axisTicks round_double ?stp (- 3) ?ten"
  let ?f = "paraboloide round_double"
  let ?res = "foldl (\<lambda>acc x. foldl (cellBody round_double ?f ?stp x) acc ?xs) (0, []) ?xs"
  have below: "\<forall>v \<in> set ?xs. v < 3" unfolding grid_ticks_double by simp
  have stop: "\<not> axisEnd round_double ?stp (- 3) ?ten < 3" unfolding grid_ticks_double by simp
  have run: "gridLoopX round_double ?f 3 ?stp (- 3) (0, []) = Some ?res"
    by (rule gridLoopX_ticks [OF below stop below stop])
  have r: "riemannGrid round_double ?f 3 9 = Some ?res"
    unfolding riemannGrid_def Let_def grid_step_double by (rule run)
  have ps: "snd ?res = concat (map (\<lambda>x. map (\<lambda>y. \<lparr> prism_x = x, prism_y = y,
        prism_height = ?f (round_double (x + round_double (?stp / 2)))
                          (round_double (y + round_double (?stp / 2))) \<rparr>) ?xs) ?xs)"
    using foldl_rows_prisms [of ?f round_double ?stp ?xs "(0, [])" ?xs, OF paraboloide_double_pos]
    by simp
  have len: "length ?xs = 10" and ne: "?xs \<noteq> []"
    and lst: "last ?xs = 6755399441055742 / 2 ^ 51"
    unfolding grid_ticks_double by simp_all
  have l100: "length (snd ?res) = 100"
    unfolding ps concat_rows_length len by simp
  have lx: "prism_x (last (snd ?res)) = 6755399441055742 / 2 ^ 51"
    unfolding ps concat_rows_last [OF ne ne] lst by simp
  have "(6755399441055742 / 2 ^ 51 :: real) < 3" by simp
  with r l100 lx
  show "\<exists>vol ps. riemannGrid round_double ?f 3 9 = Some (vol, ps) \<and>
       length ps = 100 \<and> prism_x (last ps) = 6755399441055742 / 2 ^ 51 \<and>
       prism_x (last ps) < 3"
    by (metis prod.collapse)
next
  let ?g = "paraboloide (\<lambda>v. v)"
  let ?cells = "concat (map (\<lambda>i. map (\<lambda>j. cellPrism ?g 3 9 i j) [0..<9]) [0..<9])"
  have n: "1 \<le> (9::nat)" and r: "0 < (3::real)" by simp_all
  have e: "riemannGrid (\<lambda>v. v) ?g 3 9 =
     Some (\<Sum>i<9. \<Sum>j<9. cellVolume ?g 3 9 i j, filter (\<lambda>p. prism_height p > 0) ?cells)"
    by (rule riemannGrid_exact_midpoint_positive_cells [OF n r])
  have "\<forall>p \<in> set ?cells. prism_height p > 0"
    by (auto simp: cellPrism_def paraboloide_exact_pos)
  then have "filter (\<lambda>p. prism_height p > 0) ?cells = ?cells" by (simp only: filter_True)
  moreover have "length ?cells = 81" unfolding concat_rows_length by simp
  ultimately show "\<exists>vol ps. riemannGrid (\<lambda>v. v) ?g 3 9 = Some (vol, ps) \<and> length ps = 81"
    using e by simp
qed

end
